theory Spec2Isabelle
  imports Main "HOL-Library.Sublist"
begin

section \<open>Errors (shared/errors)\<close>

text \<open>
  \<^verbatim>\<open>AppError(code, message, statusCode)\<close> sets \<^verbatim>\<open>name\<close> to the name of the constructing
  class.  An awaited call can also reject with an error that is not an \<^verbatim>\<open>AppError\<close>: a
  Prisma error, which carries a \<^verbatim>\<open>code\<close> such as \<^verbatim>\<open>P2025\<close>, or an error of one of the
  hashing libraries.
\<close>

datatype error =
    AppError string string string nat
  | PrismaError string
  | LibraryError string

text \<open>The arguments of \<open>AppError\<close> are: class name, code, message, status code.\<close>

definition UnauthorizedError :: "string \<Rightarrow> string \<Rightarrow> error" where
  "UnauthorizedError message code = AppError ''UnauthorizedError'' code message 401"

definition NotFoundError :: "string \<Rightarrow> string \<Rightarrow> error" where
  "NotFoundError message code = AppError ''NotFoundError'' code message 404"

definition ConflictError :: "string \<Rightarrow> string \<Rightarrow> error" where
  "ConflictError message code = AppError ''ConflictError'' code message 409"

text \<open>\<^verbatim>\<open>'code' in error\<close> and \<^verbatim>\<open>error.code\<close>.\<close>

fun error_code :: "error \<Rightarrow> string option" where
  "error_code (AppError n c m s) = Some c"
| "error_code (PrismaError c) = Some c"
| "error_code (LibraryError m) = None"



section \<open>Credential verifier (libs/password.ts)\<close>

text \<open>
  The two hashing libraries and the JWT signer are external; they are parameters of the
  model.  \<open>argon2_hash\<close> takes the random salt that \<^verbatim>\<open>argon2.hash\<close> draws internally as an
  explicit first argument.  The two comparators resolve to a boolean or reject.
  \<open>jwt_sign\<close> takes the user id, the role and the time of issue.
\<close>

record libs =
  argon2_hash :: "string \<Rightarrow> string \<Rightarrow> string"
  argon2_verify :: "string \<Rightarrow> string \<Rightarrow> error + bool"
  bcrypt_compare :: "string \<Rightarrow> string \<Rightarrow> error + bool"
  jwt_sign :: "string \<Rightarrow> string \<Rightarrow> int \<Rightarrow> string"

record verify_result =
  valid :: bool
  needsRehash :: bool

definition startsWith :: "string \<Rightarrow> string \<Rightarrow> bool" where
  "startsWith s p = prefix p s"

definition hashPassword :: "libs \<Rightarrow> string \<Rightarrow> string \<Rightarrow> string" where
  "hashPassword L salt password = argon2_hash L salt password"

definition isBcryptHash :: "string \<Rightarrow> bool" where
  "isBcryptHash hash =
     (startsWith hash ''$2a$'' \<or> startsWith hash ''$2b$'' \<or> startsWith hash ''$2y$'')"

definition verifyPassword :: "libs \<Rightarrow> string \<Rightarrow> string \<Rightarrow> error + verify_result" where
  "verifyPassword L password hash =
     (if isBcryptHash hash then
        (case bcrypt_compare L password hash of
           Inl e \<Rightarrow> Inl e
         | Inr v \<Rightarrow> Inr \<lparr>valid = v, needsRehash = v\<rparr>)
      else
        (case argon2_verify L hash password of
           Inl e \<Rightarrow> Inl e
         | Inr v \<Rightarrow> Inr \<lparr>valid = v, needsRehash = False\<rparr>))"

text \<open>
  A test double for the libraries, used to run the model on concrete inputs: the "modern"
  hash is \<open>$argon2id$\<close>, the salt, \<open>$\<close> and the password; a legacy hash is \<open>$2b$\<close> and the
  password; the modern verifier rejects a string that is not a modern hash.
\<close>

definition toy_libs :: libs where
  "toy_libs = \<lparr>
     argon2_hash = (\<lambda>salt pw. ''$argon2id$'' @ salt @ ''$'' @ pw),
     argon2_verify = (\<lambda>h pw.
        if prefix ''$argon2id$'' h then Inr (suffix (''$'' @ pw) h)
        else Inl (LibraryError ''pchstr must contain a $ as first char'')),
     bcrypt_compare = (\<lambda>pw h. Inr (h = ''$2b$'' @ pw)),
     jwt_sign = (\<lambda>userId role iat. ''jwt.'' @ userId @ ''.'' @ role) \<rparr>"


section \<open>Lockout policy (auth.service.ts)\<close>

record threshold =
  attempts :: int
  durationMs :: int

definition LOCKOUT_THRESHOLDS :: "threshold list" where
  "LOCKOUT_THRESHOLDS =
     [\<lparr>attempts = 5, durationMs = 15 * 60 * 1000\<rparr>,
      \<lparr>attempts = 10, durationMs = 30 * 60 * 1000\<rparr>,
      \<lparr>attempts = 15, durationMs = 60 * 60 * 1000\<rparr>]"

text \<open>
  The loop \<^verbatim>\<open>for (let i = LOCKOUT_THRESHOLDS.length - 1; i >= 0; i--)\<close>: the first argument
  of \<open>lockout_loop\<close> is \<open>i + 1\<close>, so that the loop has ended at \<open>0\<close>.
\<close>

fun lockout_loop :: "nat \<Rightarrow> int \<Rightarrow> int option" where
  "lockout_loop 0 failedAttempts = None"
| "lockout_loop (Suc i) failedAttempts =
     (if failedAttempts \<ge> attempts (LOCKOUT_THRESHOLDS ! i)
      then Some (durationMs (LOCKOUT_THRESHOLDS ! i))
      else lockout_loop i failedAttempts)"

definition getLockoutDuration :: "int \<Rightarrow> int option" where
  "getLockoutDuration failedAttempts = lockout_loop (length LOCKOUT_THRESHOLDS) failedAttempts"


section \<open>Data model\<close>

text \<open>
  The rows of the three tables, with the fields of the test fixtures and of the repository
  calls.  A \<^verbatim>\<open>Date\<close> is its number of milliseconds since the epoch.
\<close>

record user =
  user_id :: string
  user_email :: string
  user_password :: string
  user_firstName :: string
  user_lastName :: string
  user_avatarUrl :: "string option"
  user_role :: string
  user_isActive :: bool
  user_deletedAt :: "int option"
  user_failedLoginAttempts :: int
  user_lockedUntil :: "int option"
  user_createdAt :: int
  user_updatedAt :: int

record refresh_token =
  rt_id :: string
  rt_token :: string
  rt_userId :: string
  rt_expiresAt :: int
  rt_createdAt :: int

record session =
  s_id :: string
  s_userId :: string
  s_deviceInfo :: "string option"
  s_ipAddress :: "string option"
  s_lastActiveAt :: int
  s_expiresAt :: int
  s_createdAt :: int

record database =
  users :: "user list"
  refreshTokens :: "refresh_token list"
  sessions :: "session list"


section \<open>The store as the code sees it\<close>

text \<open>
  Every call of the Prisma client is awaited.  At that point other requests may run against
  the same store, and the call itself may fail for a reason that has nothing to do with its
  arguments.  A \<open>world\<close> is the database together with a schedule: for each of the next
  Prisma calls, in order, whether nothing else happens (\<open>Quiet\<close>), whether the store is
  unreachable (\<open>Outage\<close>), or what other requests do to the store just before the call is
  executed (\<open>Concurrent\<close>).  When the schedule is exhausted nothing else happens any more.
\<close>

datatype event = Quiet | Outage | Concurrent "database \<Rightarrow> database"

record world =
  db :: database
  schedule :: "event list"

text \<open>The database that the next Prisma call is executed on; \<open>None\<close> for an outage.\<close>

definition seen :: "world \<Rightarrow> database option" where
  "seen w =
     (case schedule w of
        [] \<Rightarrow> Some (db w)
      | Quiet # es \<Rightarrow> Some (db w)
      | Outage # es \<Rightarrow> None
      | Concurrent f # es \<Rightarrow> Some (f (db w)))"

text \<open>A query is run on the database seen; it answers or rejects, and gives the new database.\<close>

type_synonym 'a query = "database \<Rightarrow> (error + 'a) \<times> database"

type_synonym 'a action = "world \<Rightarrow> (error + 'a) \<times> world"

definition prisma :: "'a query \<Rightarrow> 'a action" where
  "prisma q w =
     (case seen w of
        None \<Rightarrow> (Inl (PrismaError ''P1001''), w\<lparr>schedule := tl (schedule w)\<rparr>)
      | Some d \<Rightarrow>
          (case q d of (r, d') \<Rightarrow> (r, w\<lparr>db := d', schedule := tl (schedule w)\<rparr>)))"

text \<open>\<^verbatim>\<open>const x = await m; k x\<close>, \<^verbatim>\<open>throw e\<close> and \<^verbatim>\<open>return a\<close> of an async function.\<close>

definition await :: "'a action \<Rightarrow> ('a \<Rightarrow> 'b action) \<Rightarrow> 'b action" where
  "await m k w = (case m w of (Inl e, w') \<Rightarrow> (Inl e, w') | (Inr a, w') \<Rightarrow> k a w')"

definition throw :: "error \<Rightarrow> 'a action" where
  "throw e w = (Inl e, w)"

definition return :: "'a \<Rightarrow> 'a action" where
  "return a w = (Inr a, w)"

text \<open>\<^verbatim>\<open>prisma.$transaction([q1, q2])\<close>: both queries in order, or no change at all.\<close>

definition transaction :: "'a query \<Rightarrow> 'b query \<Rightarrow> ('a \<times> 'b) query" where
  "transaction q1 q2 d =
     (case q1 d of
        (Inl e, d1) \<Rightarrow> (Inl e, d)
      | (Inr a, d1) \<Rightarrow>
          (case q2 d1 of
             (Inl e, d2) \<Rightarrow> (Inl e, d)
           | (Inr b, d2) \<Rightarrow> (Inr (a, b), d2)))"


subsection \<open>The queries\<close>

text \<open>
  Modelled from the spec: the Prisma schema is not among the sources.  The spec's data model
  gives a user a unique id and a unique email, a refresh token a unique token string, and
  every row an id and a creation timestamp; a new user has no failed attempts and is active,
  with role \<open>USER\<close>.  A create that would break uniqueness rejects with \<^verbatim>\<open>P2002\<close>; an update
  or delete of a row that does not exist rejects with \<^verbatim>\<open>P2025\<close>, the code the repository
  tests for.  An update stamps \<open>updatedAt\<close>.
\<close>

record user_data =
  ud_email :: string
  ud_password :: string
  ud_firstName :: string
  ud_lastName :: string

record token_data =
  td_token :: string
  td_userId :: string
  td_expiresAt :: int

record session_data =
  sd_userId :: string
  sd_deviceInfo :: "string option"
  sd_ipAddress :: "string option"
  sd_expiresAt :: int

definition user_findUnique :: "(user \<Rightarrow> bool) \<Rightarrow> (user option) query" where
  "user_findUnique P d = (Inr (find P (users d)), d)"

definition user_create :: "int \<Rightarrow> string \<Rightarrow> user_data \<Rightarrow> user query" where
  "user_create t newId data d =
     (if \<exists>u \<in> set (users d). user_id u = newId \<or> user_email u = ud_email data
      then (Inl (PrismaError ''P2002''), d)
      else
        (let u = \<lparr>user_id = newId, user_email = ud_email data, user_password = ud_password data,
                   user_firstName = ud_firstName data, user_lastName = ud_lastName data,
                   user_avatarUrl = None, user_role = ''USER'', user_isActive = True,
                   user_deletedAt = None, user_failedLoginAttempts = 0,
                   user_lockedUntil = None, user_createdAt = t, user_updatedAt = t\<rparr>
         in (Inr u, d\<lparr>users := users d @ [u]\<rparr>)))"

definition user_update :: "int \<Rightarrow> string \<Rightarrow> (user \<Rightarrow> user) \<Rightarrow> unit query" where
  "user_update t uid f d =
     (if \<exists>u \<in> set (users d). user_id u = uid
      then (Inr (),
            d\<lparr>users := map (\<lambda>u. if user_id u = uid then (f u)\<lparr>user_updatedAt := t\<rparr> else u)
                           (users d)\<rparr>)
      else (Inl (PrismaError ''P2025''), d))"

definition refreshToken_create :: "int \<Rightarrow> string \<Rightarrow> token_data \<Rightarrow> refresh_token query" where
  "refreshToken_create t newId data d =
     (if \<exists>r \<in> set (refreshTokens d). rt_id r = newId \<or> rt_token r = td_token data
      then (Inl (PrismaError ''P2002''), d)
      else
        (let r = \<lparr>rt_id = newId, rt_token = td_token data, rt_userId = td_userId data,
                   rt_expiresAt = td_expiresAt data, rt_createdAt = t\<rparr>
         in (Inr r, d\<lparr>refreshTokens := refreshTokens d @ [r]\<rparr>)))"

definition refreshToken_findUnique :: "string \<Rightarrow> (refresh_token option) query" where
  "refreshToken_findUnique tok d = (Inr (find (\<lambda>r. rt_token r = tok) (refreshTokens d)), d)"

definition refreshToken_delete :: "string \<Rightarrow> unit query" where
  "refreshToken_delete tok d =
     (if \<exists>r \<in> set (refreshTokens d). rt_token r = tok
      then (Inr (), d\<lparr>refreshTokens := filter (\<lambda>r. rt_token r \<noteq> tok) (refreshTokens d)\<rparr>)
      else (Inl (PrismaError ''P2025''), d))"

definition session_create :: "int \<Rightarrow> string \<Rightarrow> session_data \<Rightarrow> session query" where
  "session_create t newId data d =
     (if \<exists>s \<in> set (sessions d). s_id s = newId
      then (Inl (PrismaError ''P2002''), d)
      else
        (let s = \<lparr>s_id = newId, s_userId = sd_userId data, s_deviceInfo = sd_deviceInfo data,
                   s_ipAddress = sd_ipAddress data, s_lastActiveAt = t,
                   s_expiresAt = sd_expiresAt data, s_createdAt = t\<rparr>
         in (Inr s, d\<lparr>sessions := sessions d @ [s]\<rparr>)))"

text \<open>\<^verbatim>\<open>findMany\<close> of the active sessions of a user, \<^verbatim>\<open>orderBy lastActiveAt desc\<close>.\<close>

definition session_findMany :: "string \<Rightarrow> int \<Rightarrow> (session list) query" where
  "session_findMany uid t d =
     (Inr (sort_key (\<lambda>s. - s_lastActiveAt s)
             (filter (\<lambda>s. s_userId s = uid \<and> s_expiresAt s > t) (sessions d))), d)"

definition session_delete :: "string \<Rightarrow> unit query" where
  "session_delete sid d =
     (if \<exists>s \<in> set (sessions d). s_id s = sid
      then (Inr (), d\<lparr>sessions := filter (\<lambda>s. s_id s \<noteq> sid) (sessions d)\<rparr>)
      else (Inl (PrismaError ''P2025''), d))"


section \<open>What a call draws from its environment\<close>

text \<open>
  The clock and the random values of one call of the service: \<open>now\<close> is the reading of the
  clock (\<^verbatim>\<open>new Date()\<close>, \<^verbatim>\<open>Date.now()\<close> and the store's \<^verbatim>\<open>now()\<close>, taken at one instant),
  \<open>refreshExpiryMs\<close> is the parsed \<^verbatim>\<open>JWT_REFRESH_EXPIRY\<close>, \<open>salt\<close> the salt of the password
  hash, \<open>newRefreshToken\<close> the result of \<^verbatim>\<open>uuidv4()\<close>, and the three ids are the ones the store
  gives to the rows it creates.
\<close>

record env =
  now :: int
  refreshExpiryMs :: int
  salt :: string
  newRefreshToken :: string
  newUserId :: string
  newTokenId :: string
  newSessionId :: string

definition signAccessToken :: "libs \<Rightarrow> env \<Rightarrow> string \<Rightarrow> string \<Rightarrow> string" where
  "signAccessToken L E userId role = jwt_sign L userId role (now E)"

definition generateRefreshToken :: "env \<Rightarrow> string" where
  "generateRefreshToken E = newRefreshToken E"

definition getRefreshTokenExpiresAt :: "env \<Rightarrow> int" where
  "getRefreshTokenExpiresAt E = now E + refreshExpiryMs E"


section \<open>Repositories (auth.repo.ts, session.repo.ts)\<close>

definition findUserByEmail :: "string \<Rightarrow> (user option) action" where
  "findUserByEmail email =
     prisma (user_findUnique (\<lambda>u. user_email u = email \<and> user_deletedAt u = None))"

definition findUserById :: "string \<Rightarrow> (user option) action" where
  "findUserById uid =
     prisma (user_findUnique (\<lambda>u. user_id u = uid \<and> user_deletedAt u = None))"

definition createUser :: "env \<Rightarrow> user_data \<Rightarrow> user action" where
  "createUser E data = prisma (user_create (now E) (newUserId E) data)"

definition createRefreshToken :: "env \<Rightarrow> token_data \<Rightarrow> refresh_token action" where
  "createRefreshToken E data = prisma (refreshToken_create (now E) (newTokenId E) data)"

definition findRefreshToken :: "string \<Rightarrow> (refresh_token option) action" where
  "findRefreshToken tok = prisma (refreshToken_findUnique tok)"

definition deleteRefreshToken :: "string \<Rightarrow> unit action" where
  "deleteRefreshToken tok w =
     (case prisma (refreshToken_delete tok) w of
        (Inl e, w') \<Rightarrow>
          if error_code e = Some ''P2025'' then (Inr (), w') else (Inl e, w')
      | (Inr u, w') \<Rightarrow> (Inr (), w'))"

definition rotateRefreshToken :: "env \<Rightarrow> string \<Rightarrow> token_data \<Rightarrow> bool action" where
  "rotateRefreshToken E oldToken newData w =
     (case prisma (transaction (refreshToken_delete oldToken)
                     (refreshToken_create (now E) (newTokenId E) newData)) w of
        (Inl e, w') \<Rightarrow>
          if error_code e = Some ''P2025'' then (Inr False, w') else (Inl e, w')
      | (Inr r, w') \<Rightarrow> (Inr True, w'))"

definition incrementFailedAttempts :: "env \<Rightarrow> string \<Rightarrow> unit action" where
  "incrementFailedAttempts E userId =
     prisma (user_update (now E) userId
       (\<lambda>u. u\<lparr>user_failedLoginAttempts := user_failedLoginAttempts u + 1\<rparr>))"

definition setAccountLock :: "env \<Rightarrow> string \<Rightarrow> int \<Rightarrow> unit action" where
  "setAccountLock E userId lockedUntil =
     prisma (user_update (now E) userId (\<lambda>u. u\<lparr>user_lockedUntil := Some lockedUntil\<rparr>))"

definition resetFailedAttempts :: "env \<Rightarrow> string \<Rightarrow> unit action" where
  "resetFailedAttempts E userId =
     prisma (user_update (now E) userId
       (\<lambda>u. u\<lparr>user_failedLoginAttempts := 0, user_lockedUntil := None\<rparr>))"

definition updateUserPassword :: "env \<Rightarrow> string \<Rightarrow> string \<Rightarrow> unit action" where
  "updateUserPassword E userId hashedPassword =
     prisma (user_update (now E) userId (\<lambda>u. u\<lparr>user_password := hashedPassword\<rparr>))"

definition createSession :: "env \<Rightarrow> session_data \<Rightarrow> session action" where
  "createSession E data = prisma (session_create (now E) (newSessionId E) data)"

definition getUserSessions :: "env \<Rightarrow> string \<Rightarrow> (session list) action" where
  "getUserSessions E userId = prisma (session_findMany userId (now E))"

definition deleteSession :: "string \<Rightarrow> unit action" where
  "deleteSession sessionId = prisma (session_delete sessionId)"


section \<open>Auth orchestrator (auth.service.ts)\<close>

text \<open>
  A JavaScript object is the list of its properties; the user object that Prisma returns has
  one property for each column.
\<close>

datatype jsvalue = JString string | JNumber int | JBool bool | JNull | JDate int | JIsoString int

text \<open>\<open>JIsoString t\<close> stands for the string that \<^verbatim>\<open>toISOString()\<close> gives for the date \<open>t\<close>.\<close>

type_synonym jsobject = "(string \<times> jsvalue) list"

definition nullable :: "('a \<Rightarrow> jsvalue) \<Rightarrow> 'a option \<Rightarrow> jsvalue" where
  "nullable f x = (case x of None \<Rightarrow> JNull | Some v \<Rightarrow> f v)"

definition user_object :: "user \<Rightarrow> jsobject" where
  "user_object u =
     [(''id'', JString (user_id u)),
      (''email'', JString (user_email u)),
      (''password'', JString (user_password u)),
      (''firstName'', JString (user_firstName u)),
      (''lastName'', JString (user_lastName u)),
      (''avatarUrl'', nullable JString (user_avatarUrl u)),
      (''role'', JString (user_role u)),
      (''isActive'', JBool (user_isActive u)),
      (''deletedAt'', nullable JDate (user_deletedAt u)),
      (''failedLoginAttempts'', JNumber (user_failedLoginAttempts u)),
      (''lockedUntil'', nullable JDate (user_lockedUntil u)),
      (''createdAt'', JDate (user_createdAt u)),
      (''updatedAt'', JDate (user_updatedAt u))]"

text \<open>
  \<^verbatim>\<open>const { password: _password, createdAt, updatedAt, avatarUrl, ...rest } = user\<close>:
  \<open>rest\<close> has every property of the object but the four that are named.
\<close>

definition sanitizeUser :: "user \<Rightarrow> jsobject" where
  "sanitizeUser u =
     (let rest = filter (\<lambda>(k, v). k \<notin> {''password'', ''createdAt'', ''updatedAt'', ''avatarUrl''})
                   (user_object u)
      in rest @
         [(''avatarUrl'', nullable JString (user_avatarUrl u)),
          (''createdAt'', JIsoString (user_createdAt u)),
          (''updatedAt'', JIsoString (user_updatedAt u))])"

record register_input =
  ri_email :: string
  ri_password :: string
  ri_firstName :: string
  ri_lastName :: string

record login_input =
  li_email :: string
  li_password :: string

record auth_result =
  ar_user :: jsobject
  ar_accessToken :: string
  ar_refreshToken :: string

record token_pair =
  tp_accessToken :: string
  tp_refreshToken :: string

text \<open>
  The tail that \<open>register\<close> and \<open>login\<close> share: sign the access token, generate the refresh
  token, store it, store the session, return.
\<close>

definition issue :: "libs \<Rightarrow> env \<Rightarrow> user \<Rightarrow> string option \<Rightarrow> string option \<Rightarrow> auth_result action"
  where
  "issue L E u deviceInfo ipAddress =
     (let accessToken = signAccessToken L E (user_id u) (user_role u);
          refreshToken = generateRefreshToken E;
          refreshTokenExpiresAt = getRefreshTokenExpiresAt E
      in
      await (createRefreshToken E
               \<lparr>td_token = refreshToken, td_userId = user_id u,
                td_expiresAt = refreshTokenExpiresAt\<rparr>) (\<lambda>_.
      await (createSession E
               \<lparr>sd_userId = user_id u, sd_deviceInfo = deviceInfo, sd_ipAddress = ipAddress,
                sd_expiresAt = refreshTokenExpiresAt\<rparr>) (\<lambda>_.
      return \<lparr>ar_user = sanitizeUser u, ar_accessToken = accessToken,
              ar_refreshToken = refreshToken\<rparr>)))"

definition register ::
  "libs \<Rightarrow> env \<Rightarrow> register_input \<Rightarrow> string option \<Rightarrow> string option \<Rightarrow> auth_result action"
  where
  "register L E input deviceInfo ipAddress =
     await (findUserByEmail (ri_email input)) (\<lambda>existingUser.
     if existingUser \<noteq> None
     then throw (ConflictError ''Email already registered'' ''EMAIL_ALREADY_EXISTS'')
     else
       (let hashedPassword = hashPassword L (salt E) (ri_password input) in
        await (createUser E
                 \<lparr>ud_email = ri_email input, ud_password = hashedPassword,
                  ud_firstName = ri_firstName input, ud_lastName = ri_lastName input\<rparr>)
          (\<lambda>u. issue L E u deviceInfo ipAddress)))"

definition invalid_credentials :: error where
  "invalid_credentials = UnauthorizedError ''Invalid email or password'' ''INVALID_CREDENTIALS''"

text \<open>\<^verbatim>\<open>user.lockedUntil && user.lockedUntil > new Date()\<close>.\<close>

definition locked_at :: "int \<Rightarrow> user \<Rightarrow> bool" where
  "locked_at t u = (case user_lockedUntil u of None \<Rightarrow> False | Some l \<Rightarrow> l > t)"

text \<open>\<^verbatim>\<open>if (lockDuration)\<close>: neither \<^verbatim>\<open>null\<close> nor \<^verbatim>\<open>0\<close>.\<close>

definition lock_after_failure :: "env \<Rightarrow> user \<Rightarrow> unit action" where
  "lock_after_failure E u =
     (let newAttempts = user_failedLoginAttempts u + 1 in
      await (incrementFailedAttempts E (user_id u)) (\<lambda>_.
      case getLockoutDuration newAttempts of
        None \<Rightarrow> return ()
      | Some lockDuration \<Rightarrow>
          if lockDuration \<noteq> 0 then setAccountLock E (user_id u) (now E + lockDuration)
          else return ()))"

definition login ::
  "libs \<Rightarrow> env \<Rightarrow> login_input \<Rightarrow> string option \<Rightarrow> string option \<Rightarrow> auth_result action"
  where
  "login L E input deviceInfo ipAddress =
     await (findUserByEmail (li_email input)) (\<lambda>found.
     case found of
       None \<Rightarrow> throw invalid_credentials
     | Some u \<Rightarrow>
         if \<not> user_isActive u then throw invalid_credentials
         else if locked_at (now E) u then throw invalid_credentials
         else
           (case verifyPassword L (li_password input) (user_password u) of
              Inl e \<Rightarrow> throw e
            | Inr res \<Rightarrow>
                if \<not> valid res then
                  await (lock_after_failure E u) (\<lambda>_. throw invalid_credentials)
                else
                  await (if user_failedLoginAttempts u > 0 \<or> user_lockedUntil u \<noteq> None
                         then resetFailedAttempts E (user_id u) else return ()) (\<lambda>_.
                  await (if needsRehash res
                         then updateUserPassword E (user_id u)
                                (hashPassword L (salt E) (li_password input))
                         else return ()) (\<lambda>_.
                  issue L E u deviceInfo ipAddress))))"

definition refresh :: "libs \<Rightarrow> env \<Rightarrow> string \<Rightarrow> token_pair action" where
  "refresh L E refreshToken =
     await (findRefreshToken refreshToken) (\<lambda>found.
     case found of
       None \<Rightarrow> throw (UnauthorizedError ''Invalid refresh token'' ''INVALID_REFRESH_TOKEN'')
     | Some storedToken \<Rightarrow>
         if now E > rt_expiresAt storedToken then
           await (deleteRefreshToken refreshToken) (\<lambda>_.
           throw (UnauthorizedError ''Refresh token expired'' ''REFRESH_TOKEN_EXPIRED''))
         else
           await (findUserById (rt_userId storedToken)) (\<lambda>owner.
           case owner of
             None \<Rightarrow>
               throw (UnauthorizedError ''User not found or disabled'' ''INVALID_REFRESH_TOKEN'')
           | Some u \<Rightarrow>
               if \<not> user_isActive u then
                 throw (UnauthorizedError ''User not found or disabled'' ''INVALID_REFRESH_TOKEN'')
               else
                 (let newAccessToken = signAccessToken L E (user_id u) (user_role u);
                      newToken = generateRefreshToken E
                  in
                  await (rotateRefreshToken E refreshToken
                           \<lparr>td_token = newToken, td_userId = user_id u,
                            td_expiresAt = getRefreshTokenExpiresAt E\<rparr>) (\<lambda>rotated.
                  if \<not> rotated then
                    throw (UnauthorizedError ''Refresh token already used''
                             ''INVALID_REFRESH_TOKEN'')
                  else
                    return \<lparr>tp_accessToken = newAccessToken, tp_refreshToken = newToken\<rparr>))))"

text \<open>The body of the \<^verbatim>\<open>try\<close> block of \<open>logout\<close>.\<close>

definition logout_try :: "env \<Rightarrow> string \<Rightarrow> unit action" where
  "logout_try E refreshToken =
     await (findRefreshToken refreshToken) (\<lambda>found.
     await (deleteRefreshToken refreshToken) (\<lambda>_.
     case found of
       None \<Rightarrow> return ()
     | Some storedToken \<Rightarrow>
         await (getUserSessions E (rt_userId storedToken)) (\<lambda>userSessions.
         let tokenCreatedMs = rt_createdAt storedToken;
             matchingSession =
               find (\<lambda>s. \<bar>s_createdAt s - tokenCreatedMs\<bar> < 5000) userSessions
         in case matchingSession of
              None \<Rightarrow> return ()
            | Some s \<Rightarrow> deleteSession (s_id s))))"

text \<open>\<^verbatim>\<open>try { ... } catch { }\<close>: whatever the body throws is dropped.\<close>

definition logout :: "env \<Rightarrow> string \<Rightarrow> unit action" where
  "logout E refreshToken w =
     (case logout_try E refreshToken w of
        (Inl e, w') \<Rightarrow> (Inr (), w')
      | (Inr u, w') \<Rightarrow> (Inr (), w'))"

section \<open>Auxiliary notions for the proofs\<close>

text \<open>An error of the store, as opposed to one that the service constructs.\<close>

fun is_prisma :: "error \<Rightarrow> bool" where
  "is_prisma (PrismaError c) = True"
| "is_prisma (AppError n c m s) = False"
| "is_prisma (LibraryError m) = False"

text \<open>An action, or a query, that rejects with errors of the store only.\<close>

definition prisma_only :: "'a action \<Rightarrow> bool" where
  "prisma_only m = (\<forall>w e. fst (m w) = Inl e \<longrightarrow> is_prisma e)"

definition query_errors :: "'a query \<Rightarrow> bool" where
  "query_errors q = (\<forall>d e. fst (q d) = Inl e \<longrightarrow> is_prisma e)"

text \<open>The row that a create of a user inserts, and the data that \<open>register\<close> creates it from.\<close>

definition new_user_row :: "env \<Rightarrow> user_data \<Rightarrow> user" where
  "new_user_row E data =
     \<lparr>user_id = newUserId E, user_email = ud_email data, user_password = ud_password data,
      user_firstName = ud_firstName data, user_lastName = ud_lastName data,
      user_avatarUrl = None, user_role = ''USER'', user_isActive = True,
      user_deletedAt = None, user_failedLoginAttempts = 0,
      user_lockedUntil = None, user_createdAt = now E, user_updatedAt = now E\<rparr>"

definition register_data :: "libs \<Rightarrow> env \<Rightarrow> register_input \<Rightarrow> user_data" where
  "register_data L E input =
     \<lparr>ud_email = ri_email input, ud_password = hashPassword L (salt E) (ri_password input),
      ud_firstName = ri_firstName input, ud_lastName = ri_lastName input\<rparr>"

text \<open>The row that a create of a refresh token inserts.\<close>

definition new_token_row :: "env \<Rightarrow> token_data \<Rightarrow> refresh_token" where
  "new_token_row E data = \<lparr>rt_id = newTokenId E, rt_token = td_token data,
     rt_userId = td_userId data, rt_expiresAt = td_expiresAt data, rt_createdAt = now E\<rparr>"

text \<open>
  The session that \<open>logout\<close> selects for a stored token: the first of the user's active
  sessions, most recently active first, created less than 5000 ms from the token.
\<close>

definition matchingSession :: "env \<Rightarrow> refresh_token \<Rightarrow> database \<Rightarrow> session option" where
  "matchingSession E st d =
     find (\<lambda>s. \<bar>s_createdAt s - rt_createdAt st\<bar> < 5000)
       (sort_key (\<lambda>s. - s_lastActiveAt s)
          (filter (\<lambda>s. s_userId s = rt_userId st \<and> s_expiresAt s > now E) (sessions d)))"

text \<open>The row \<open>y\<close> is the row \<open>x\<close> with its counter not lowered and its lock not cleared.\<close>

definition not_reset :: "user \<Rightarrow> user \<Rightarrow> bool" where
  "not_reset x y \<longleftrightarrow>
     user_id y = user_id x \<and> user_failedLoginAttempts x \<le> user_failedLoginAttempts y
     \<and> (user_lockedUntil x \<noteq> None \<longrightarrow> user_lockedUntil y \<noteq> None)"

text \<open>The password check of \<open>login\<close> is reached and succeeds.\<close>

definition login_verified :: "libs \<Rightarrow> env \<Rightarrow> login_input \<Rightarrow> world \<Rightarrow> bool" where
  "login_verified L E input w =
     (case find (\<lambda>u. user_email u = li_email input \<and> user_deletedAt u = None) (users (db w)) of
        None \<Rightarrow> False
      | Some u \<Rightarrow>
          user_isActive u \<and> \<not> locked_at (now E) u
          \<and> (case verifyPassword L (li_password input) (user_password u) of
                Inl e \<Rightarrow> False
              | Inr res \<Rightarrow> valid res))"


section \<open>A concrete store\<close>

text \<open>
  Five users with the password \<open>Passw0rd\<close> hashed by the test double: an ordinary one, a
  disabled one, a soft-deleted one, one locked until after the time of \<open>demo_env\<close>, and one
  whose lock has expired with nine failed attempts.  The first user has a live refresh token
  with a session created 100 ms later, an expired refresh token, and a second session.
\<close>

definition demo_env :: env where
  "demo_env = \<lparr>now = 2000000, refreshExpiryMs = 604800000, salt = ''s'',
     newRefreshToken = ''tok-new'', newUserId = ''u-new'', newTokenId = ''rt-new'',
     newSessionId = ''s-new''\<rparr>"

definition demo_user :: "string \<Rightarrow> string \<Rightarrow> user" where
  "demo_user i em = \<lparr>user_id = i, user_email = em, user_password = ''$argon2id$s$Passw0rd'',
     user_firstName = ''A'', user_lastName = ''B'', user_avatarUrl = None, user_role = ''USER'',
     user_isActive = True, user_deletedAt = None, user_failedLoginAttempts = 0,
     user_lockedUntil = None, user_createdAt = 1000, user_updatedAt = 1000\<rparr>"

definition demo_db :: database where
  "demo_db = \<lparr>
     users =
       [demo_user ''u1'' ''a@x.com'',
        (demo_user ''u2'' ''b@x.com'')\<lparr>user_isActive := False\<rparr>,
        (demo_user ''u3'' ''c@x.com'')\<lparr>user_deletedAt := Some 1500\<rparr>,
        (demo_user ''u4'' ''d@x.com'')
          \<lparr>user_failedLoginAttempts := 5, user_lockedUntil := Some 2500000\<rparr>,
        (demo_user ''u5'' ''e@x.com'')
          \<lparr>user_failedLoginAttempts := 9, user_lockedUntil := Some 1900000\<rparr>],
     refreshTokens =
       [\<lparr>rt_id = ''rt1'', rt_token = ''tok-a'', rt_userId = ''u1'', rt_expiresAt = 9000000,
          rt_createdAt = 1000000\<rparr>,
        \<lparr>rt_id = ''rt2'', rt_token = ''tok-old'', rt_userId = ''u1'', rt_expiresAt = 1500000,
          rt_createdAt = 900000\<rparr>],
     sessions =
       [\<lparr>s_id = ''s1'', s_userId = ''u1'', s_deviceInfo = None, s_ipAddress = None,
          s_lastActiveAt = 1000100, s_expiresAt = 9000000, s_createdAt = 1000100\<rparr>,
        \<lparr>s_id = ''s2'', s_userId = ''u1'', s_deviceInfo = None, s_ipAddress = None,
          s_lastActiveAt = 1800000, s_expiresAt = 9000000, s_createdAt = 1700000\<rparr>]\<rparr>"

definition demo_world :: world where
  "demo_world = \<lparr>db = demo_db, schedule = []\<rparr>"


text \<open>A registration on the concrete store, and the environment of a later call.\<close>

definition demo_register_input :: register_input where
  "demo_register_input = \<lparr>ri_email = ''n@x.com'', ri_password = ''Passw0rd'',
     ri_firstName = ''A'', ri_lastName = ''B''\<rparr>"

definition demo_env2 :: env where
  "demo_env2 = \<lparr>now = 2000500, refreshExpiryMs = 604800000, salt = ''t'',
     newRefreshToken = ''tok-new2'', newUserId = ''u-new2'', newTokenId = ''rt-new2'',
     newSessionId = ''s-new2''\<rparr>"


section \<open>Properties of the credential verifier\<close>


lemma verifyPassword_argon2:
  "\<not> isBcryptHash h \<Longrightarrow> argon2_verify L h pw = Inr v \<Longrightarrow>
   verifyPassword L pw h = Inr \<lparr>valid = v, needsRehash = False\<rparr>"
  by (simp add: verifyPassword_def)



lemma toy_hash_not_bcrypt: "\<not> isBcryptHash (hashPassword toy_libs slt pw)"
  by (simp add: isBcryptHash_def startsWith_def hashPassword_def toy_libs_def)

lemma toy_hash_verifies:
  "argon2_verify toy_libs (hashPassword toy_libs slt pw) pw = Inr True"
  by (simp add: hashPassword_def toy_libs_def suffix_def)





section \<open>Properties of the lockout policy\<close>

lemma getLockoutDuration_closed:
  "getLockoutDuration n =
     (if n \<ge> 15 then Some 3600000 else if n \<ge> 10 then Some 1800000
      else if n \<ge> 5 then Some 900000 else None)"
  by (simp add: getLockoutDuration_def LOCKOUT_THRESHOLDS_def numeral_3_eq_3)

lemma getLockoutDuration_mono:
  "m \<le> n \<Longrightarrow> getLockoutDuration m = Some d \<Longrightarrow>
   \<exists>d'. getLockoutDuration n = Some d' \<and> d \<le> d'"
  by (auto simp: getLockoutDuration_closed split: if_splits)

lemma getLockoutDuration_highest:
  "getLockoutDuration n = Some d \<longleftrightarrow>
     (\<exists>t \<in> set LOCKOUT_THRESHOLDS. attempts t \<le> n \<and> durationMs t = d
        \<and> (\<forall>t' \<in> set LOCKOUT_THRESHOLDS. attempts t' \<le> n \<longrightarrow> attempts t' \<le> attempts t))"
  by (auto simp: getLockoutDuration_closed LOCKOUT_THRESHOLDS_def)

text \<open>
  C4.  \<open>getLockoutDuration\<close> is non-decreasing in the number of failed attempts, with
  \<open>null\<close> below every duration: if it gives a duration at \<open>m\<close> it gives one at least as long
  at every \<open>n \<ge> m\<close>.  It is \<open>null\<close> below 5; it is \<open>null\<close> at 4, 15 minutes at 5 and at 9,
  30 minutes at 10 and 60 minutes at 20; and its value is the duration of the highest
  threshold of the table that the argument meets or exceeds.
\<close>

theorem getLockoutDuration_policy:
  "(m \<le> n \<longrightarrow> getLockoutDuration m = Some d \<longrightarrow>
      (\<exists>d'. getLockoutDuration n = Some d' \<and> d \<le> d'))
   \<and> (n < 5 \<longrightarrow> getLockoutDuration n = None)
   \<and> getLockoutDuration 4 = None
   \<and> getLockoutDuration 5 = Some (15 * 60 * 1000)
   \<and> getLockoutDuration 9 = Some (15 * 60 * 1000)
   \<and> getLockoutDuration 10 = Some (30 * 60 * 1000)
   \<and> getLockoutDuration 20 = Some (60 * 60 * 1000)
   \<and> (getLockoutDuration n = Some d' \<longleftrightarrow>
        (\<exists>t \<in> set LOCKOUT_THRESHOLDS. attempts t \<le> n \<and> durationMs t = d'
          \<and> (\<forall>t' \<in> set LOCKOUT_THRESHOLDS. attempts t' \<le> n \<longrightarrow> attempts t' \<le> attempts t)))"
proof (intro conjI impI)
  assume "m \<le> n" and "getLockoutDuration m = Some d"
  then show "\<exists>d'. getLockoutDuration n = Some d' \<and> d \<le> d'"
    by (rule getLockoutDuration_mono)
next
  assume "n < 5"
  then show "getLockoutDuration n = None"
    by (simp add: getLockoutDuration_closed)
next
  show "getLockoutDuration n = Some d' \<longleftrightarrow>
        (\<exists>t \<in> set LOCKOUT_THRESHOLDS. attempts t \<le> n \<and> durationMs t = d'
          \<and> (\<forall>t' \<in> set LOCKOUT_THRESHOLDS. attempts t' \<le> n \<longrightarrow> attempts t' \<le> attempts t))"
    by (rule getLockoutDuration_highest)
qed (simp_all add: getLockoutDuration_closed)

theorem getLockoutDuration_policy_witness:
  "(\<exists>d'. getLockoutDuration 12 = Some d' \<and> 900000 \<le> d')
   \<and> getLockoutDuration 3 = None
   \<and> (\<exists>t \<in> set LOCKOUT_THRESHOLDS. attempts t \<le> 12 \<and> durationMs t = 1800000
        \<and> (\<forall>t' \<in> set LOCKOUT_THRESHOLDS. attempts t' \<le> 12 \<longrightarrow> attempts t' \<le> attempts t))"
proof -
  have a: "getLockoutDuration 7 = Some 900000" "getLockoutDuration 12 = Some 1800000"
    by (simp_all add: getLockoutDuration_closed)
  show ?thesis
    using getLockoutDuration_policy [where m = 7 and n = 12 and d = 900000 and d' = 1800000]
      getLockoutDuration_policy [where n = 3] a
    by simp
qed

section \<open>The store and the awaited calls\<close>

lemma seen_quiet: "schedule w = [] \<Longrightarrow> seen w = Some (db w)"
  by (simp add: seen_def)

lemma prisma_quiet:
  "schedule w = [] \<Longrightarrow> prisma q w = (case q (db w) of (r, d') \<Rightarrow> (r, w\<lparr>db := d'\<rparr>))"
  by (cases w) (simp add: prisma_def seen_def split: prod.split)

lemma prisma_seen:
  "seen w = Some d \<Longrightarrow>
   prisma q w = (fst (q d), w\<lparr>db := snd (q d), schedule := tl (schedule w)\<rparr>)"
  by (simp add: prisma_def split: prod.split)

lemma prisma_outage:
  "seen w = None \<Longrightarrow>
   prisma q w = (Inl (PrismaError ''P1001''), w\<lparr>schedule := tl (schedule w)\<rparr>)"
  by (simp add: prisma_def)

lemma find_SomeD: "find P xs = Some x \<Longrightarrow> x \<in> set xs \<and> P x"
  by (induction xs) (auto split: if_splits)

lemma find_live_None:
  "find (\<lambda>u. user_email u = em \<and> user_deletedAt u = None) xs = None
   \<longleftrightarrow> (\<forall>u \<in> set xs. user_email u = em \<longrightarrow> user_deletedAt u \<noteq> None)"
  by (auto simp: find_None_iff)

lemma findUserByEmail_seen:
  "seen w = Some d \<Longrightarrow>
   findUserByEmail em w =
     (Inr (find (\<lambda>u. user_email u = em \<and> user_deletedAt u = None) (users d)),
      w\<lparr>db := d, schedule := tl (schedule w)\<rparr>)"
  by (simp add: findUserByEmail_def prisma_seen user_findUnique_def)

lemma findUserByEmail_quiet:
  "schedule w = [] \<Longrightarrow>
   findUserByEmail em w =
     (Inr (find (\<lambda>u. user_email u = em \<and> user_deletedAt u = None) (users (db w))), w)"
  by (simp add: findUserByEmail_def prisma_quiet user_findUnique_def)

lemma user_update_present:
  "u \<in> set (users d) \<Longrightarrow>
   user_update t (user_id u) f d =
     (Inr (), d\<lparr>users := map (\<lambda>x. if user_id x = user_id u then (f x)\<lparr>user_updatedAt := t\<rparr>
                                   else x) (users d)\<rparr>)"
  by (auto simp: user_update_def)

lemma prisma_only_prisma: "query_errors q \<Longrightarrow> prisma_only (prisma q)"
proof -
  assume q: "query_errors q"
  have "is_prisma e" if "fst (prisma q w) = Inl e" for w e
  proof (cases "seen w")
    case None
    with that show ?thesis by (auto simp: prisma_def)
  next
    case (Some d)
    with that have "fst (q d) = Inl e" by (simp add: prisma_def split: prod.splits)
    with q show ?thesis by (simp add: query_errors_def)
  qed
  then show ?thesis by (simp add: prisma_only_def)
qed

lemma prisma_only_await:
  "prisma_only m \<Longrightarrow> (\<And>a. prisma_only (k a)) \<Longrightarrow> prisma_only (await m k)"
  unfolding prisma_only_def await_def
  by (auto split: prod.splits sum.splits) (metis fst_conv)+

lemma prisma_only_return: "prisma_only (return a)"
  by (simp add: prisma_only_def return_def)

lemma query_errors_simps:
  "query_errors (user_create t i ud)"
  "query_errors (user_update t i f)"
  "query_errors (refreshToken_create t i td)"
  "query_errors (refreshToken_delete tok)"
  "query_errors (session_create t i sd)"
  "query_errors (session_delete i)"
  "query_errors (user_findUnique P)"
  "query_errors (refreshToken_findUnique tok)"
  "query_errors (session_findMany i t)"
  by (auto simp: query_errors_def user_create_def user_update_def
      refreshToken_create_def refreshToken_delete_def session_create_def session_delete_def
      user_findUnique_def refreshToken_findUnique_def session_findMany_def Let_def
      split: if_splits)

lemma prisma_only_issue: "prisma_only (issue L E u dev ip)"
  unfolding issue_def Let_def createRefreshToken_def createSession_def
  by (intro prisma_only_await prisma_only_prisma prisma_only_return query_errors_simps)

lemma prisma_only_createUser: "prisma_only (createUser E data)"
  unfolding createUser_def by (intro prisma_only_prisma query_errors_simps)

lemmas demo_defs = demo_world_def demo_db_def demo_user_def demo_env_def


section \<open>Logout never rejects\<close>

lemma logout_total: "fst (logout E t w) = Inr ()"
  by (simp add: logout_def split: prod.split sum.split)

lemma logout_try_outage:
  "fst (logout_try demo_env ''tok-a'' (demo_world\<lparr>schedule := [Quiet, Quiet, Outage]\<rparr>))
   = Inl (PrismaError ''P1001'')"
  by (simp add: demo_defs logout_try_def await_def findRefreshToken_def deleteRefreshToken_def
      getUserSessions_def prisma_def seen_def refreshToken_findUnique_def refreshToken_delete_def)

text \<open>
  C5.  For every token, every environment and every world (every database and every
  schedule of outages and concurrent requests), \<open>logout\<close> resolves; so does a second
  \<open>logout\<close> of the same token in the world that the first one leaves.
\<close>

theorem logout_never_throws:
  "fst (logout E t w) = Inr ()
   \<and> fst (logout E' t (snd (logout E t w))) = Inr ()"
  by (simp add: logout_total)

text \<open>
  On the concrete store: with an outage at the third call the body of the \<^verbatim>\<open>try\<close> block
  rejects and \<open>logout\<close> resolves; after a first \<open>logout\<close> the token is gone and the
  second \<open>logout\<close> resolves.
\<close>

theorem logout_never_throws_witness:
  "fst (logout_try demo_env ''tok-a'' (demo_world\<lparr>schedule := [Quiet, Quiet, Outage]\<rparr>))
     = Inl (PrismaError ''P1001'')
   \<and> fst (logout demo_env ''tok-a'' (demo_world\<lparr>schedule := [Quiet, Quiet, Outage]\<rparr>)) = Inr ()
   \<and> find (\<lambda>r. rt_token r = ''tok-a'')
        (refreshTokens (db (snd (logout demo_env ''tok-a'' demo_world)))) = None
   \<and> fst (logout demo_env ''tok-a'' (snd (logout demo_env ''tok-a'' demo_world))) = Inr ()"
proof -
  have gone: "find (\<lambda>r. rt_token r = ''tok-a'')
        (refreshTokens (db (snd (logout demo_env ''tok-a'' demo_world)))) = None"
    by (simp add: demo_defs logout_def logout_try_def await_def findRefreshToken_def
      deleteRefreshToken_def getUserSessions_def deleteSession_def prisma_def seen_def
      refreshToken_findUnique_def refreshToken_delete_def session_findMany_def
      session_delete_def return_def)
  show ?thesis
    using logout_never_throws [of demo_env "''tok-a''"
        "demo_world\<lparr>schedule := [Quiet, Quiet, Outage]\<rparr>"]
      logout_never_throws [of demo_env "''tok-a''" demo_world demo_env]
      logout_try_outage gone
    by simp
qed


section \<open>Registration and the conflict error\<close>

lemma register_live:
  assumes "seen w = Some d"
    and "\<exists>u \<in> set (users d). user_email u = ri_email input \<and> user_deletedAt u = None"
  shows "register L E input dev ip w =
     (Inl (ConflictError ''Email already registered'' ''EMAIL_ALREADY_EXISTS''),
      w\<lparr>db := d, schedule := tl (schedule w)\<rparr>)"
proof -
  from assms(2) have "find (\<lambda>u. user_email u = ri_email input \<and> user_deletedAt u = None)
      (users d) \<noteq> None"
    by (auto simp: find_live_None)
  then show ?thesis
    using assms(1) by (auto simp: register_def await_def findUserByEmail_seen throw_def)
qed

lemma register_no_live:
  assumes "seen w = Some d"
    and "\<not> (\<exists>u \<in> set (users d). user_email u = ri_email input \<and> user_deletedAt u = None)"
    and "fst (register L E input dev ip w) = Inl e"
  shows "is_prisma e"
proof -
  from assms(2) have n: "find (\<lambda>u. user_email u = ri_email input \<and> user_deletedAt u = None)
      (users d) = None"
    by (auto simp: find_live_None)
  have "prisma_only (await (createUser E
                 \<lparr>ud_email = ri_email input,
                  ud_password = hashPassword L (salt E) (ri_password input),
                  ud_firstName = ri_firstName input, ud_lastName = ri_lastName input\<rparr>)
          (\<lambda>u. issue L E u dev ip))"
    by (intro prisma_only_await prisma_only_createUser prisma_only_issue)
  then show ?thesis
    using assms(1,3) n
    by (simp add: register_def await_def findUserByEmail_seen Let_def prisma_only_def)
qed

lemma register_outage:
  assumes "seen w = None"
  shows "fst (register L E input dev ip w) = Inl (PrismaError ''P1001'')"
  using assms by (simp add: register_def await_def findUserByEmail_def prisma_outage)

text \<open>
  C7.  When the store answers the lookup, on the database \<open>d\<close> that the lookup sees,
  \<open>register\<close> rejects with a \<open>ConflictError\<close> exactly when \<open>d\<close> has a user with this email
  that is not soft-deleted; the error is then \<open>ConflictError\<close> with code
  \<open>EMAIL_ALREADY_EXISTS\<close>, and the database is left as the lookup saw it: no user is created
  and no token or session is stored.
\<close>

theorem register_conflict_iff:
  assumes "seen w = Some d"
  shows "((\<exists>c m s. fst (register L E input dev ip w) = Inl (AppError ''ConflictError'' c m s))
            \<longleftrightarrow> (\<exists>u \<in> set (users d). user_email u = ri_email input \<and> user_deletedAt u = None))
     \<and> ((\<exists>u \<in> set (users d). user_email u = ri_email input \<and> user_deletedAt u = None) \<longrightarrow>
          register L E input dev ip w =
            (Inl (ConflictError ''Email already registered'' ''EMAIL_ALREADY_EXISTS''),
             w\<lparr>db := d, schedule := tl (schedule w)\<rparr>))"
proof (cases "\<exists>u \<in> set (users d). user_email u = ri_email input \<and> user_deletedAt u = None")
  case True
  from register_live [OF assms True] True show ?thesis
    by (simp add: ConflictError_def)
next
  case False
  have "\<not> (\<exists>c m s. fst (register L E input dev ip w) = Inl (AppError ''ConflictError'' c m s))"
  proof
    assume "\<exists>c m s. fst (register L E input dev ip w) = Inl (AppError ''ConflictError'' c m s)"
    then obtain c m s where "fst (register L E input dev ip w)
        = Inl (AppError ''ConflictError'' c m s)"
      by blast
    from register_no_live [OF assms False this] show False by simp
  qed
  with False show ?thesis by blast
qed

text \<open>
  On the concrete store: the email of a live user gives the conflict and leaves the world
  as it was; the email of the soft-deleted user gives no \<open>ConflictError\<close> (the create then
  breaks the uniqueness of the email and rejects with \<^verbatim>\<open>P2002\<close>).
\<close>

theorem register_conflict_iff_witness:
  "register toy_libs demo_env
      \<lparr>ri_email = ''a@x.com'', ri_password = ''Passw0rd'', ri_firstName = ''A'',
       ri_lastName = ''B''\<rparr> None None demo_world
     = (Inl (AppError ''ConflictError'' ''EMAIL_ALREADY_EXISTS'' ''Email already registered'' 409),
        demo_world)
   \<and> \<not> (\<exists>c m s. fst (register toy_libs demo_env
      \<lparr>ri_email = ''c@x.com'', ri_password = ''Passw0rd'', ri_firstName = ''A'',
       ri_lastName = ''B''\<rparr> None None demo_world) = Inl (AppError ''ConflictError'' c m s))"
proof -
  have s: "seen demo_world = Some demo_db"
    by (simp add: seen_def demo_world_def)
  have a: "\<exists>u \<in> set (users demo_db). user_email u = ''a@x.com'' \<and> user_deletedAt u = None"
    by (simp add: demo_db_def demo_user_def)
  have c: "\<not> (\<exists>u \<in> set (users demo_db). user_email u = ''c@x.com'' \<and> user_deletedAt u = None)"
    by (simp add: demo_db_def demo_user_def)
  show ?thesis
    using register_conflict_iff [OF s, of toy_libs demo_env
        "\<lparr>ri_email = ''a@x.com'', ri_password = ''Passw0rd'', ri_firstName = ''A'',
          ri_lastName = ''B''\<rparr>" None None]
      register_conflict_iff [OF s, of toy_libs demo_env
        "\<lparr>ri_email = ''c@x.com'', ri_password = ''Passw0rd'', ri_firstName = ''A'',
          ri_lastName = ''B''\<rparr>" None None] a c
    by (simp add: ConflictError_def demo_world_def)
qed

lemma register_soft_deleted_email:
  "fst (register toy_libs demo_env
      \<lparr>ri_email = ''c@x.com'', ri_password = ''Passw0rd'', ri_firstName = ''A'',
       ri_lastName = ''B''\<rparr> None None demo_world) = Inl (PrismaError ''P2002'')"
  by (simp add: demo_defs register_def await_def findUserByEmail_def prisma_def seen_def
      user_findUnique_def createUser_def user_create_def Let_def)


section \<open>Login: one error for every denial\<close>

lemma login_absent:
  assumes "schedule w = []"
    and "\<forall>u \<in> set (users (db w)). user_email u = li_email input \<longrightarrow> user_deletedAt u \<noteq> None"
  shows "login L E input dev ip w = (Inl invalid_credentials, w)"
proof -
  from assms(2) have "find (\<lambda>u. user_email u = li_email input \<and> user_deletedAt u = None)
      (users (db w)) = None"
    by (simp add: find_live_None)
  with assms(1) show ?thesis
    by (simp add: login_def await_def findUserByEmail_quiet throw_def)
qed

lemma login_found:
  assumes "schedule w = []"
    and "find (\<lambda>u. user_email u = li_email input \<and> user_deletedAt u = None) (users (db w))
         = Some u"
  shows "login L E input dev ip w =
    (if \<not> user_isActive u then (Inl invalid_credentials, w)
     else if locked_at (now E) u then (Inl invalid_credentials, w)
     else
       (case verifyPassword L (li_password input) (user_password u) of
          Inl e \<Rightarrow> (Inl e, w)
        | Inr res \<Rightarrow>
            if \<not> valid res then
              await (lock_after_failure E u) (\<lambda>_. throw invalid_credentials) w
            else
              await (if user_failedLoginAttempts u > 0 \<or> user_lockedUntil u \<noteq> None
                     then resetFailedAttempts E (user_id u) else return ()) (\<lambda>_.
              await (if needsRehash res
                     then updateUserPassword E (user_id u)
                            (hashPassword L (salt E) (li_password input))
                     else return ()) (\<lambda>_.
              issue L E u dev ip)) w))"
  using assms
  by (simp add: login_def await_def findUserByEmail_quiet throw_def split: sum.split)

text \<open>
  The users table after a failed verification for the user \<open>u\<close>.
\<close>

lemma lock_after_failure_quiet:
  assumes "schedule w = []" and "u \<in> set (users (db w))"
  shows "lock_after_failure E u w =
    (Inr (), w\<lparr>db := (db w)\<lparr>users :=
       map (\<lambda>x. if user_id x = user_id u
                then (case getLockoutDuration (user_failedLoginAttempts u + 1) of
                        None \<Rightarrow>
                          x\<lparr>user_failedLoginAttempts := user_failedLoginAttempts x + 1,
                            user_updatedAt := now E\<rparr>
                      | Some dur \<Rightarrow>
                          x\<lparr>user_failedLoginAttempts := user_failedLoginAttempts x + 1,
                            user_lockedUntil := Some (now E + dur),
                            user_updatedAt := now E\<rparr>)
                else x) (users (db w))\<rparr>\<rparr>)"
proof -
  let ?g = "\<lambda>x. if user_id x = user_id u
      then (x\<lparr>user_failedLoginAttempts := user_failedLoginAttempts x + 1\<rparr>)\<lparr>user_updatedAt := now E\<rparr>
      else x"
  let ?w1 = "w\<lparr>db := (db w)\<lparr>users := map ?g (users (db w))\<rparr>\<rparr>"
  have inc: "incrementFailedAttempts E (user_id u) w = (Inr (), ?w1)"
    using assms by (simp add: incrementFailedAttempts_def prisma_quiet user_update_present)
  have mem: "?g u \<in> set (users (db ?w1))" using assms(2) by (simp del: if_split) 
  have id: "user_id (?g u) = user_id u" by simp
  show ?thesis
  proof (cases "getLockoutDuration (user_failedLoginAttempts u + 1)")
    case None
    then show ?thesis
      using inc by (simp add: lock_after_failure_def await_def return_def Let_def)
  next
    case (Some dur)
    then have nz: "dur \<noteq> 0"
      by (auto simp: getLockoutDuration_closed split: if_splits)
    have "setAccountLock E (user_id u) (now E + dur) ?w1 =
      (Inr (), ?w1\<lparr>db := (db ?w1)\<lparr>users :=
          map (\<lambda>x. if user_id x = user_id u
                then (x\<lparr>user_lockedUntil := Some (now E + dur)\<rparr>)\<lparr>user_updatedAt := now E\<rparr>
                else x) (users (db ?w1))\<rparr>\<rparr>)"
      using user_update_present [OF mem, of "now E" "\<lambda>u. u\<lparr>user_lockedUntil := Some (now E + dur)\<rparr>"]
        assms(1) unfolding id
      by (simp add: setAccountLock_def prisma_quiet del: if_split) 
    then show ?thesis
      using inc Some nz
      by (simp add: lock_after_failure_def await_def Let_def comp_def cong: if_cong)
  qed
qed

lemma prisma_only_login_tail:
  "prisma_only
     (await (if c1 then resetFailedAttempts E i else return ()) (\<lambda>_.
      await (if c2 then updateUserPassword E i h else return ()) (\<lambda>_.
      issue L E u dev ip)))"
  by (intro prisma_only_await prisma_only_issue)
     (simp_all add: resetFailedAttempts_def updateUserPassword_def prisma_only_prisma
        prisma_only_return query_errors_simps)

lemma login_denied:
  assumes "schedule w = []"
    and "find (\<lambda>u. user_email u = li_email input \<and> user_deletedAt u = None) (users (db w))
         = Some u"
    and "\<not> user_isActive u \<or> locked_at (now E) u
         \<or> (\<exists>r. verifyPassword L (li_password input) (user_password u) = Inr r \<and> \<not> valid r)"
  shows "fst (login L E input dev ip w) = Inl invalid_credentials"
proof -
  from assms(2) have "u \<in> set (users (db w))" by (auto dest: find_SomeD)
  then have "fst (await (lock_after_failure E u) (\<lambda>_. throw invalid_credentials) w)
    = Inl invalid_credentials"
    using assms(1) by (simp add: await_def lock_after_failure_quiet throw_def)
  then show ?thesis
    using assms by (auto simp: login_found)
qed

lemma login_errors:
  assumes "schedule w = []" and "fst (login L E input dev ip w) = Inl e"
  shows "e = invalid_credentials \<or> is_prisma e
    \<or> (\<exists>u \<in> set (users (db w)). verifyPassword L (li_password input) (user_password u) = Inl e)"
proof (cases "find (\<lambda>u. user_email u = li_email input \<and> user_deletedAt u = None) (users (db w))")
  case None
  then have "login L E input dev ip w = (Inl invalid_credentials, w)"
    using assms(1) by (simp add: login_absent find_live_None)
  with assms(2) show ?thesis by simp
next
  case (Some u)
  then have mem: "u \<in> set (users (db w))" by (auto dest: find_SomeD)
  show ?thesis
  proof (cases "\<not> user_isActive u \<or> locked_at (now E) u
         \<or> (\<exists>r. verifyPassword L (li_password input) (user_password u) = Inr r \<and> \<not> valid r)")
    case True
    from login_denied [OF assms(1) Some True] assms(2) show ?thesis by simp
  next
    case False
    show ?thesis
    proof (cases "verifyPassword L (li_password input) (user_password u)")
      case (Inl e')
      with False Some assms show ?thesis
        using mem by (auto simp: login_found)
    next
      case (Inr r)
      with False have "valid r" by simp
      with False Some assms Inr have "is_prisma e"
        using prisma_only_login_tail
          [of "user_failedLoginAttempts u > 0 \<or> user_lockedUntil u \<noteq> None" E "user_id u"
            "needsRehash r" "hashPassword L (salt E) (li_password input)" L u dev ip]
        by (simp add: login_found prisma_only_def)
      then show ?thesis by simp
    qed
  qed
qed

text \<open>
  C2.  With no outage and no concurrent request during the call: \<open>login\<close> rejects with
  \<open>invalid_credentials\<close> when no user has the email, when every user with the email is
  soft-deleted, when the user found is disabled, when the user found is locked at the
  time of the call, and when the verifier answers that the password does not match.
  Every error of \<open>login\<close> is this one, or an error of the store, or an error of the
  hashing library.  \<open>invalid_credentials\<close> is the \<open>UnauthorizedError\<close> with code
  \<open>INVALID_CREDENTIALS\<close> and message \<open>Invalid email or password\<close>.
\<close>

theorem login_failures_identical:
  assumes "schedule w = []"
  shows "((\<forall>u \<in> set (users (db w)). user_email u \<noteq> li_email input) \<longrightarrow>
            fst (login L E input dev ip w) = Inl invalid_credentials)
     \<and> ((\<forall>u \<in> set (users (db w)). user_email u = li_email input \<longrightarrow> user_deletedAt u \<noteq> None) \<longrightarrow>
            fst (login L E input dev ip w) = Inl invalid_credentials)
     \<and> (\<forall>u. find (\<lambda>u. user_email u = li_email input \<and> user_deletedAt u = None) (users (db w))
               = Some u \<and>
             (\<not> user_isActive u \<or> locked_at (now E) u
              \<or> (\<exists>r. verifyPassword L (li_password input) (user_password u) = Inr r \<and> \<not> valid r)) \<longrightarrow>
            fst (login L E input dev ip w) = Inl invalid_credentials)
     \<and> (\<forall>e. fst (login L E input dev ip w) = Inl e \<longrightarrow>
            e = invalid_credentials \<or> is_prisma e
            \<or> (\<exists>u \<in> set (users (db w)).
                  verifyPassword L (li_password input) (user_password u) = Inl e))
     \<and> invalid_credentials
          = AppError ''UnauthorizedError'' ''INVALID_CREDENTIALS'' ''Invalid email or password'' 401"
proof (intro conjI allI impI)
  assume "\<forall>u \<in> set (users (db w)). user_email u \<noteq> li_email input"
  then show "fst (login L E input dev ip w) = Inl invalid_credentials"
    using assms by (simp add: login_absent)
next
  assume "\<forall>u \<in> set (users (db w)). user_email u = li_email input \<longrightarrow> user_deletedAt u \<noteq> None"
  then show "fst (login L E input dev ip w) = Inl invalid_credentials"
    using assms by (simp add: login_absent)
next
  fix u
  assume "find (\<lambda>u. user_email u = li_email input \<and> user_deletedAt u = None) (users (db w))
               = Some u \<and>
             (\<not> user_isActive u \<or> locked_at (now E) u
              \<or> (\<exists>r. verifyPassword L (li_password input) (user_password u) = Inr r \<and> \<not> valid r))"
  then show "fst (login L E input dev ip w) = Inl invalid_credentials"
    using login_denied [OF assms] by blast
next
  fix e
  assume "fst (login L E input dev ip w) = Inl e"
  then show "e = invalid_credentials \<or> is_prisma e
            \<or> (\<exists>u \<in> set (users (db w)).
                  verifyPassword L (li_password input) (user_password u) = Inl e)"
    using login_errors [OF assms] by blast
next
  show "invalid_credentials
      = AppError ''UnauthorizedError'' ''INVALID_CREDENTIALS'' ''Invalid email or password'' 401"
    by (simp add: invalid_credentials_def UnauthorizedError_def)
qed

lemma demo_find:
  "find (\<lambda>u. user_email u = ''a@x.com'' \<and> user_deletedAt u = None) (users (db demo_world))
     = Some (demo_user ''u1'' ''a@x.com'')"
  "find (\<lambda>u. user_email u = ''b@x.com'' \<and> user_deletedAt u = None) (users (db demo_world))
     = Some ((demo_user ''u2'' ''b@x.com'')\<lparr>user_isActive := False\<rparr>)"
  "find (\<lambda>u. user_email u = ''d@x.com'' \<and> user_deletedAt u = None) (users (db demo_world))
     = Some ((demo_user ''u4'' ''d@x.com'')
          \<lparr>user_failedLoginAttempts := 5, user_lockedUntil := Some 2500000\<rparr>)"
  "find (\<lambda>u. user_email u = ''e@x.com'' \<and> user_deletedAt u = None) (users (db demo_world))
     = Some ((demo_user ''u5'' ''e@x.com'')
          \<lparr>user_failedLoginAttempts := 9, user_lockedUntil := Some 1900000\<rparr>)"
  by (simp_all add: demo_defs)

lemma demo_wrong_password:
  "verifyPassword toy_libs ''wrong'' (user_password (demo_user i em))
     = Inr \<lparr>valid = False, needsRehash = False\<rparr>"
  by (simp add: verifyPassword_def isBcryptHash_def startsWith_def demo_user_def toy_libs_def
      suffix_def)

text \<open>
  On the concrete store: an unknown email, the soft-deleted user, the disabled user, the
  locked user and a wrong password for the first user.
\<close>

theorem login_failures_identical_witness:
  "fst (login toy_libs demo_env \<lparr>li_email = ''z@x.com'', li_password = ''Passw0rd''\<rparr>
          None None demo_world) = Inl invalid_credentials
   \<and> fst (login toy_libs demo_env \<lparr>li_email = ''c@x.com'', li_password = ''Passw0rd''\<rparr>
          None None demo_world) = Inl invalid_credentials
   \<and> fst (login toy_libs demo_env \<lparr>li_email = ''b@x.com'', li_password = ''Passw0rd''\<rparr>
          None None demo_world) = Inl invalid_credentials
   \<and> fst (login toy_libs demo_env \<lparr>li_email = ''d@x.com'', li_password = ''Passw0rd''\<rparr>
          None None demo_world) = Inl invalid_credentials
   \<and> fst (login toy_libs demo_env \<lparr>li_email = ''a@x.com'', li_password = ''wrong''\<rparr>
          None None demo_world) = Inl invalid_credentials"
proof -
  have q: "schedule demo_world = []" by (simp add: demo_world_def)
  have z: "\<forall>u \<in> set (users (db demo_world)).
      user_email u \<noteq> li_email \<lparr>li_email = ''z@x.com'', li_password = ''Passw0rd''\<rparr>"
    by (simp add: demo_defs)
  have c: "\<forall>u \<in> set (users (db demo_world)).
      user_email u = li_email \<lparr>li_email = ''c@x.com'', li_password = ''Passw0rd''\<rparr>
      \<longrightarrow> user_deletedAt u \<noteq> None"
    by (simp add: demo_defs)
  have d: "locked_at (now demo_env) ((demo_user ''u4'' ''d@x.com'')
          \<lparr>user_failedLoginAttempts := 5, user_lockedUntil := Some 2500000\<rparr>)"
    by (simp add: locked_at_def demo_env_def)
  note t = login_failures_identical [OF q, where L = toy_libs and E = demo_env and dev = None
      and ip = None]
  show ?thesis
    using t [where input = "\<lparr>li_email = ''z@x.com'', li_password = ''Passw0rd''\<rparr>"]
      t [where input = "\<lparr>li_email = ''c@x.com'', li_password = ''Passw0rd''\<rparr>"]
      t [where input = "\<lparr>li_email = ''b@x.com'', li_password = ''Passw0rd''\<rparr>"]
      t [where input = "\<lparr>li_email = ''d@x.com'', li_password = ''Passw0rd''\<rparr>"]
      t [where input = "\<lparr>li_email = ''a@x.com'', li_password = ''wrong''\<rparr>"]
      z c d demo_find demo_wrong_password
    by simp
qed

section \<open>Refresh: rotation\<close>

lemma rotate_query:
  "transaction (refreshToken_delete old) (refreshToken_create t i nd) d =
    (if \<forall>r \<in> set (refreshTokens d). rt_token r \<noteq> old then (Inl (PrismaError ''P2025''), d)
     else if \<exists>r \<in> set (refreshTokens d). rt_token r \<noteq> old
               \<and> (rt_id r = i \<or> rt_token r = td_token nd)
     then (Inl (PrismaError ''P2002''), d)
     else (Inr ((), \<lparr>rt_id = i, rt_token = td_token nd, rt_userId = td_userId nd,
                     rt_expiresAt = td_expiresAt nd, rt_createdAt = t\<rparr>),
           d\<lparr>refreshTokens := filter (\<lambda>r. rt_token r \<noteq> old) (refreshTokens d) @
              [\<lparr>rt_id = i, rt_token = td_token nd, rt_userId = td_userId nd,
                rt_expiresAt = td_expiresAt nd, rt_createdAt = t\<rparr>]\<rparr>))"
  by (auto simp: transaction_def refreshToken_delete_def refreshToken_create_def Let_def)

lemma rotate_seen:
  assumes "seen w = Some d"
  shows "rotateRefreshToken E old nd w =
    (if \<forall>r \<in> set (refreshTokens d). rt_token r \<noteq> old
     then (Inr False, w\<lparr>db := d, schedule := tl (schedule w)\<rparr>)
     else if \<exists>r \<in> set (refreshTokens d). rt_token r \<noteq> old
               \<and> (rt_id r = newTokenId E \<or> rt_token r = td_token nd)
     then (Inl (PrismaError ''P2002''), w\<lparr>db := d, schedule := tl (schedule w)\<rparr>)
     else (Inr True,
           w\<lparr>db := d\<lparr>refreshTokens := filter (\<lambda>r. rt_token r \<noteq> old) (refreshTokens d) @
                       [new_token_row E nd]\<rparr>,
             schedule := tl (schedule w)\<rparr>))"
  using assms
  by (simp add: rotateRefreshToken_def prisma_seen rotate_query new_token_row_def)

lemma rotate_outage:
  assumes "seen w = None"
  shows "rotateRefreshToken E old nd w =
    (Inl (PrismaError ''P1001''), w\<lparr>schedule := tl (schedule w)\<rparr>)"
  using assms by (simp add: rotateRefreshToken_def prisma_outage)

lemma findRefreshToken_seen:
  "seen w = Some d \<Longrightarrow>
   findRefreshToken t w =
     (Inr (find (\<lambda>r. rt_token r = t) (refreshTokens d)),
      w\<lparr>db := d, schedule := tl (schedule w)\<rparr>)"
  by (simp add: findRefreshToken_def prisma_seen refreshToken_findUnique_def)

lemma findRefreshToken_quiet:
  "schedule w = [] \<Longrightarrow>
   findRefreshToken t w = (Inr (find (\<lambda>r. rt_token r = t) (refreshTokens (db w))), w)"
  by (simp add: findRefreshToken_def prisma_quiet refreshToken_findUnique_def)

lemma find_token_None:
  "find (\<lambda>r. rt_token r = t) xs = None \<longleftrightarrow> (\<forall>r \<in> set xs. rt_token r \<noteq> t)"
  by (auto simp: find_None_iff)

lemma deleteRefreshToken_quiet:
  "schedule w = [] \<Longrightarrow>
   deleteRefreshToken t w =
     (Inr (), w\<lparr>db := (db w)\<lparr>refreshTokens :=
        filter (\<lambda>r. rt_token r \<noteq> t) (refreshTokens (db w))\<rparr>\<rparr>)"
proof -
  assume q: "schedule w = []"
  have "filter (\<lambda>r. rt_token r \<noteq> t) (refreshTokens (db w)) = refreshTokens (db w)"
    if "\<forall>r \<in> set (refreshTokens (db w)). rt_token r \<noteq> t"
    using that by (simp add: filter_id_conv)
  then show ?thesis
    using q by (auto simp: deleteRefreshToken_def prisma_quiet refreshToken_delete_def)
qed



lemma refresh_absent:
  assumes "seen w = Some d" and "\<forall>r \<in> set (refreshTokens d). rt_token r \<noteq> t"
  shows "refresh L E t w =
    (Inl (UnauthorizedError ''Invalid refresh token'' ''INVALID_REFRESH_TOKEN''),
     w\<lparr>db := d, schedule := tl (schedule w)\<rparr>)"
proof -
  from assms(2) have "find (\<lambda>r. rt_token r = t) (refreshTokens d) = None"
    by (simp add: find_token_None)
  with assms(1) show ?thesis
    by (simp add: refresh_def await_def throw_def findRefreshToken_seen)
qed

lemma refresh_expired:
  assumes "schedule w = []"
    and "find (\<lambda>r. rt_token r = t) (refreshTokens (db w)) = Some st"
    and "now E > rt_expiresAt st"
  shows "refresh L E t w =
    (Inl (UnauthorizedError ''Refresh token expired'' ''REFRESH_TOKEN_EXPIRED''),
     w\<lparr>db := (db w)\<lparr>refreshTokens :=
        filter (\<lambda>r. rt_token r \<noteq> t) (refreshTokens (db w))\<rparr>\<rparr>)"
  using assms
  by (simp add: refresh_def await_def throw_def findRefreshToken_quiet deleteRefreshToken_quiet)









section \<open>Refresh: the three rejections\<close>






section \<open>Logout: the session that is deleted\<close>

lemma getUserSessions_quiet:
  "schedule w = [] \<Longrightarrow>
   getUserSessions E uid w =
     (Inr (sort_key (\<lambda>s. - s_lastActiveAt s)
             (filter (\<lambda>s. s_userId s = uid \<and> s_expiresAt s > now E) (sessions (db w)))), w)"
  by (simp add: getUserSessions_def prisma_quiet session_findMany_def)

lemma deleteSession_quiet:
  "schedule w = [] \<Longrightarrow> m \<in> set (sessions (db w)) \<Longrightarrow>
   deleteSession (s_id m) w =
     (Inr (), w\<lparr>db := (db w)\<lparr>sessions :=
        filter (\<lambda>s. s_id s \<noteq> s_id m) (sessions (db w))\<rparr>\<rparr>)"
  by (auto simp: deleteSession_def prisma_quiet session_delete_def)

lemma filter_key_remove1:
  "distinct (map f xs) \<Longrightarrow> m \<in> set xs \<Longrightarrow> filter (\<lambda>s. f s \<noteq> f m) xs = remove1 m xs"
proof (induction xs)
  case Nil
  then show ?case by simp
next
  case (Cons x xs)
  show ?case
  proof (cases "x = m")
    case True
    with Cons.prems have "f m \<notin> f ` set xs" by simp
    then have "\<forall>s \<in> set xs. f s \<noteq> f m" by (metis imageI)
    then have "filter (\<lambda>s. f s \<noteq> f m) xs = xs" by (simp add: filter_id_conv)
    with True show ?thesis by simp
  next
    case False
    with Cons.prems have "m \<in> set xs" and "f x \<noteq> f m" by auto
    with Cons False show ?thesis by auto
  qed
qed

lemma matchingSession_Some:
  "matchingSession E st d = Some m \<Longrightarrow>
   m \<in> set (sessions d) \<and> s_userId m = rt_userId st \<and> s_expiresAt m > now E
   \<and> \<bar>s_createdAt m - rt_createdAt st\<bar> < 5000"
  by (auto simp: matchingSession_def dest!: find_SomeD)

lemma matchingSession_None:
  "matchingSession E st d = None \<longleftrightarrow>
   (\<forall>s \<in> set (sessions d). s_userId s = rt_userId st \<and> s_expiresAt s > now E \<longrightarrow>
      \<not> \<bar>s_createdAt s - rt_createdAt st\<bar> < 5000)"
  by (auto simp: matchingSession_def find_None_iff)

lemma logout_found:
  assumes "schedule w = []"
    and "find (\<lambda>r. rt_token r = t) (refreshTokens (db w)) = Some st"
  shows "logout E t w =
    (Inr (),
     w\<lparr>db := (db w)\<lparr>
        refreshTokens := filter (\<lambda>r. rt_token r \<noteq> t) (refreshTokens (db w)),
        sessions := (case matchingSession E st (db w) of
                       None \<Rightarrow> sessions (db w)
                     | Some m \<Rightarrow> filter (\<lambda>s. s_id s \<noteq> s_id m) (sessions (db w)))\<rparr>\<rparr>)"
proof (cases "matchingSession E st (db w)")
  case None
  then show ?thesis
    using assms
    by (simp add: logout_def logout_try_def await_def return_def findRefreshToken_quiet
        deleteRefreshToken_quiet getUserSessions_quiet matchingSession_def Let_def)
next
  case (Some m)
  let ?w1 = "w\<lparr>db := (db w)\<lparr>refreshTokens :=
        filter (\<lambda>r. rt_token r \<noteq> t) (refreshTokens (db w))\<rparr>\<rparr>"
  from Some have "m \<in> set (sessions (db ?w1))"
    by (auto dest: matchingSession_Some)
  from deleteSession_quiet [OF _ this] assms(1)
  have "deleteSession (s_id m) ?w1 =
     (Inr (), ?w1\<lparr>db := (db ?w1)\<lparr>sessions :=
        filter (\<lambda>s. s_id s \<noteq> s_id m) (sessions (db ?w1))\<rparr>\<rparr>)"
    by simp
  then show ?thesis
    using assms Some
    by (simp add: logout_def logout_try_def await_def return_def findRefreshToken_quiet
        deleteRefreshToken_quiet getUserSessions_quiet matchingSession_def Let_def)
qed

text \<open>
  C9.  With no outage and no concurrent request, for a token that is found, and session
  ids being unique: after \<open>logout\<close> the sessions are the ones before, or the ones before
  with one session removed, which belongs to the owner of the token and was created less
  than 5000 ms from the token.  A session that is gone was created less than 5000 ms from
  the token; at most one session is gone; and if no active session of the owner was
  created less than 5000 ms from the token, the sessions are unchanged.
\<close>

theorem logout_session_deletion:
  assumes "schedule w = []"
    and "find (\<lambda>r. rt_token r = t) (refreshTokens (db w)) = Some st"
    and "distinct (map s_id (sessions (db w)))"
  shows "(sessions (db (snd (logout E t w))) = sessions (db w)
          \<or> (\<exists>m \<in> set (sessions (db w)).
                s_userId m = rt_userId st \<and> \<bar>s_createdAt m - rt_createdAt st\<bar> < 5000
                \<and> sessions (db (snd (logout E t w))) = remove1 m (sessions (db w))))
     \<and> (\<forall>s \<in> set (sessions (db w)). s \<notin> set (sessions (db (snd (logout E t w)))) \<longrightarrow>
           \<bar>s_createdAt s - rt_createdAt st\<bar> < 5000)
     \<and> length (sessions (db w)) \<le> length (sessions (db (snd (logout E t w)))) + 1
     \<and> ((\<forall>s \<in> set (sessions (db w)).
            s_userId s = rt_userId st \<and> s_expiresAt s > now E \<longrightarrow>
            \<not> \<bar>s_createdAt s - rt_createdAt st\<bar> < 5000) \<longrightarrow>
         sessions (db (snd (logout E t w))) = sessions (db w))"
proof (cases "matchingSession E st (db w)")
  case None
  then have "sessions (db (snd (logout E t w))) = sessions (db w)"
    using assms by (simp add: logout_found)
  then show ?thesis by simp
next
  case (Some m)
  from matchingSession_Some [OF Some]
  have m: "m \<in> set (sessions (db w))" "s_userId m = rt_userId st" "s_expiresAt m > now E"
    "\<bar>s_createdAt m - rt_createdAt st\<bar> < 5000"
    by simp_all
  from assms(3) have d: "distinct (sessions (db w))" by (simp add: distinct_map)
  have eq: "sessions (db (snd (logout E t w))) = remove1 m (sessions (db w))"
    using assms Some m(1) by (simp add: logout_found filter_key_remove1)
  have a: "\<exists>m \<in> set (sessions (db w)).
      s_userId m = rt_userId st \<and> \<bar>s_createdAt m - rt_createdAt st\<bar> < 5000
      \<and> sessions (db (snd (logout E t w))) = remove1 m (sessions (db w))"
    using m eq by blast
  have b: "\<forall>s \<in> set (sessions (db w)). s \<notin> set (sessions (db (snd (logout E t w)))) \<longrightarrow>
      \<bar>s_createdAt s - rt_createdAt st\<bar> < 5000"
    using eq d m(4) by auto
  have c: "length (sessions (db w)) \<le> length (sessions (db (snd (logout E t w)))) + 1"
    using eq m(1) by (simp add: length_remove1)
  have e: "\<not> (\<forall>s \<in> set (sessions (db w)).
            s_userId s = rt_userId st \<and> s_expiresAt s > now E \<longrightarrow>
            \<not> \<bar>s_createdAt s - rt_createdAt st\<bar> < 5000)"
    using m by blast
  from a b c e show ?thesis by blast
qed

lemma demo_sessions_distinct: "distinct (map s_id (sessions (db demo_world)))"
  by (simp add: demo_world_def demo_db_def)

text \<open>
  On the concrete store: the session created 100 ms after the token \<open>tok-a\<close> is the one
  deleted; no session is within 5000 ms of the token \<open>tok-old\<close>, and none is deleted.
\<close>

theorem logout_session_deletion_witness:
  "sessions (db (snd (logout demo_env ''tok-a'' demo_world)))
     = [\<lparr>s_id = ''s2'', s_userId = ''u1'', s_deviceInfo = None, s_ipAddress = None,
          s_lastActiveAt = 1800000, s_expiresAt = 9000000, s_createdAt = 1700000\<rparr>]
   \<and> length (sessions (db demo_world))
       \<le> length (sessions (db (snd (logout demo_env ''tok-a'' demo_world)))) + 1
   \<and> sessions (db (snd (logout demo_env ''tok-old'' demo_world))) = sessions (db demo_world)"
proof -
  have q: "schedule demo_world = []" by (simp add: demo_world_def)
  have a: "find (\<lambda>r. rt_token r = ''tok-a'') (refreshTokens (db demo_world))
      = Some \<lparr>rt_id = ''rt1'', rt_token = ''tok-a'', rt_userId = ''u1'',
               rt_expiresAt = 9000000, rt_createdAt = 1000000\<rparr>"
    by (simp add: demo_world_def demo_db_def)
  have o: "find (\<lambda>r. rt_token r = ''tok-old'') (refreshTokens (db demo_world))
      = Some \<lparr>rt_id = ''rt2'', rt_token = ''tok-old'', rt_userId = ''u1'',
               rt_expiresAt = 1500000, rt_createdAt = 900000\<rparr>"
    by (simp add: demo_world_def demo_db_def)
  have none: "\<forall>s \<in> set (sessions (db demo_world)).
      s_userId s = rt_userId \<lparr>rt_id = ''rt2'', rt_token = ''tok-old'', rt_userId = ''u1'',
               rt_expiresAt = 1500000, rt_createdAt = 900000\<rparr> \<and> s_expiresAt s > now demo_env
      \<longrightarrow> \<not> \<bar>s_createdAt s - rt_createdAt \<lparr>rt_id = ''rt2'', rt_token = ''tok-old'',
               rt_userId = ''u1'', rt_expiresAt = 1500000, rt_createdAt = 900000\<rparr>\<bar> < 5000"
    by (simp add: demo_world_def demo_db_def)
  note ta = logout_session_deletion [OF q a demo_sessions_distinct, of demo_env]
  note tb = logout_session_deletion [OF q o demo_sessions_distinct, of demo_env]
  have 1: "sessions (db (snd (logout demo_env ''tok-a'' demo_world)))
     = [\<lparr>s_id = ''s2'', s_userId = ''u1'', s_deviceInfo = None, s_ipAddress = None,
          s_lastActiveAt = 1800000, s_expiresAt = 9000000, s_createdAt = 1700000\<rparr>]"
    by (simp add: demo_defs logout_def logout_try_def await_def findRefreshToken_def
      deleteRefreshToken_def getUserSessions_def deleteSession_def prisma_def seen_def
      refreshToken_findUnique_def refreshToken_delete_def session_findMany_def
      session_delete_def return_def)
  from ta have 2: "length (sessions (db demo_world))
       \<le> length (sessions (db (snd (logout demo_env ''tok-a'' demo_world)))) + 1"
    by blast
  from tb none have 3: "sessions (db (snd (logout demo_env ''tok-old'' demo_world)))
      = sessions (db demo_world)"
    by blast
  from 1 2 3 show ?thesis by simp
qed

section \<open>The failed-attempt counter and the lock\<close>

lemma list_all2_map_same:
  "(\<And>x. x \<in> set xs \<Longrightarrow> R x (g x)) \<Longrightarrow> list_all2 R xs (map g xs)"
  by (induction xs) auto

lemma login_no_reset:
  assumes "schedule w = []" and "\<not> login_verified L E input w"
  shows "list_all2 not_reset (users (db w)) (users (db (snd (login L E input dev ip w))))"
proof (cases "find (\<lambda>u. user_email u = li_email input \<and> user_deletedAt u = None) (users (db w))")
  case None
  then have "login L E input dev ip w = (Inl invalid_credentials, w)"
    using assms(1) by (simp add: login_absent find_live_None)
  then show ?thesis by (simp add: list_all2_same not_reset_def)
next
  case (Some u)
  then have mem: "u \<in> set (users (db w))" by (auto dest: find_SomeD)
  have same: "list_all2 not_reset (users (db w)) (users (db w))"
    by (simp add: list_all2_same not_reset_def)
  have failed: "list_all2 not_reset (users (db w))
      (users (db (snd (await (lock_after_failure E u) (\<lambda>_. throw invalid_credentials) w))))"
    using assms(1) mem
    by (simp add: await_def lock_after_failure_quiet throw_def)
       (rule list_all2_map_same, simp add: not_reset_def split: option.split)
  show ?thesis
  proof (cases "verifyPassword L (li_password input) (user_password u)")
    case (Inl e)
    with Some assms(1) same show ?thesis by (simp add: login_found)
  next
    case (Inr r)
    with Some assms(2) have "\<not> user_isActive u \<or> locked_at (now E) u \<or> \<not> valid r"
      by (simp add: login_verified_def)
    with Some Inr assms(1) same failed show ?thesis
      by (auto simp: login_found)
  qed
qed

lemma login_after_expired_lock:
  assumes "schedule w = []"
    and "find (\<lambda>u. user_email u = li_email input \<and> user_deletedAt u = None) (users (db w))
         = Some u"
    and "user_isActive u"
    and "user_lockedUntil u = Some l" and "l \<le> now E"
    and "user_failedLoginAttempts u \<ge> 5"
    and "verifyPassword L (li_password input) (user_password u) = Inr r" and "\<not> valid r"
  shows "\<exists>dur. getLockoutDuration (user_failedLoginAttempts u + 1) = Some dur \<and> 0 < dur
      \<and> (\<forall>k d0. k \<le> user_failedLoginAttempts u \<and> getLockoutDuration k = Some d0 \<longrightarrow> d0 \<le> dur)
      \<and> login L E input dev ip w =
          (Inl invalid_credentials,
           w\<lparr>db := (db w)\<lparr>users :=
              map (\<lambda>x. if user_id x = user_id u
                       then x\<lparr>user_failedLoginAttempts := user_failedLoginAttempts x + 1,
                              user_lockedUntil := Some (now E + dur),
                              user_updatedAt := now E\<rparr>
                       else x) (users (db w))\<rparr>\<rparr>)"
proof -
  from assms(6) have "\<exists>dur. getLockoutDuration (user_failedLoginAttempts u + 1) = Some dur
      \<and> 0 < dur"
    by (simp add: getLockoutDuration_closed)
  then obtain dur where
    dur: "getLockoutDuration (user_failedLoginAttempts u + 1) = Some dur" and pos: "0 < dur"
    by blast
  have mono: "\<forall>k d0. k \<le> user_failedLoginAttempts u \<and> getLockoutDuration k = Some d0
      \<longrightarrow> d0 \<le> dur"
  proof (intro allI impI)
    fix k d0
    assume "k \<le> user_failedLoginAttempts u \<and> getLockoutDuration k = Some d0"
    then have "k \<le> user_failedLoginAttempts u + 1" and "getLockoutDuration k = Some d0"
      by simp_all
    from getLockoutDuration_mono [OF this] dur show "d0 \<le> dur" by simp
  qed
  from assms(2) have mem: "u \<in> set (users (db w))" by (auto dest: find_SomeD)
  from assms(4,5) have nl: "\<not> locked_at (now E) u" by (simp add: locked_at_def)
  have "login L E input dev ip w =
          (Inl invalid_credentials,
           w\<lparr>db := (db w)\<lparr>users :=
              map (\<lambda>x. if user_id x = user_id u
                       then x\<lparr>user_failedLoginAttempts := user_failedLoginAttempts x + 1,
                              user_lockedUntil := Some (now E + dur),
                              user_updatedAt := now E\<rparr>
                       else x) (users (db w))\<rparr>\<rparr>)"
    using assms(1,2,3,7,8) nl mem dur
    by (simp add: login_found await_def lock_after_failure_quiet throw_def)
  with dur pos mono show ?thesis by blast
qed

lemma user_update_quiet:
  "schedule w = [] \<Longrightarrow> \<exists>x \<in> set (users (db w)). user_id x = i \<Longrightarrow>
   prisma (user_update t i f) w =
     (Inr (), w\<lparr>db := (db w)\<lparr>users :=
        map (\<lambda>x. if user_id x = i then (f x)\<lparr>user_updatedAt := t\<rparr> else x) (users (db w))\<rparr>\<rparr>)"
  by (simp add: prisma_quiet user_update_def)

lemma map_keeps_id:
  assumes "\<And>x. user_id (g x) = user_id x" and "\<exists>x \<in> set xs. user_id x = i"
  shows "\<exists>x \<in> set (map g xs). user_id x = i"
proof -
  from assms(2) obtain x where "x \<in> set xs" and "user_id x = i" by blast
  then have "g x \<in> set (map g xs)" and "user_id (g x) = i"
    using assms(1) by simp_all
  then show ?thesis by blast
qed

lemma rows_after_map:
  assumes "\<And>x. x \<in> set xs \<Longrightarrow> user_id x = i \<Longrightarrow> P (g x)"
  shows "\<forall>y \<in> set (map (\<lambda>x. if user_id x = i then g x else x) xs). user_id y = i \<longrightarrow> P y"
proof (intro ballI impI)
  fix y
  assume "y \<in> set (map (\<lambda>x. if user_id x = i then g x else x) xs)" and y: "user_id y = i"
  then obtain x where x: "x \<in> set xs" and yx: "y = (if user_id x = i then g x else x)"
    by (auto simp del: if_split)
  show "P y"
  proof (cases "user_id x = i")
    case True
    with x yx assms show ?thesis by simp
  next
    case False
    with yx y show ?thesis by simp
  qed
qed

lemma issue_users:
  "schedule w = [] \<Longrightarrow> users (db (snd (issue L E u dev ip w))) = users (db w)"
  by (simp add: issue_def await_def return_def createRefreshToken_def createSession_def
      prisma_quiet refreshToken_create_def session_create_def Let_def)

lemma login_resets:
  assumes "schedule w = []"
    and "find (\<lambda>u. user_email u = li_email input \<and> user_deletedAt u = None) (users (db w))
         = Some u"
    and "user_isActive u" and "\<not> locked_at (now E) u"
    and "verifyPassword L (li_password input) (user_password u) = Inr r" and "valid r"
    and "user_failedLoginAttempts u > 0 \<or> user_lockedUntil u \<noteq> None"
  shows "\<forall>y \<in> set (users (db (snd (login L E input dev ip w)))).
           user_id y = user_id u \<longrightarrow> user_failedLoginAttempts y = 0 \<and> user_lockedUntil y = None"
proof -
  from assms(2) have mem: "\<exists>x \<in> set (users (db w)). user_id x = user_id u"
    by (auto dest: find_SomeD)
  let ?g = "\<lambda>x. if user_id x = user_id u
      then (x\<lparr>user_failedLoginAttempts := 0, user_lockedUntil := None\<rparr>)\<lparr>user_updatedAt := now E\<rparr>
      else x"
  let ?w1 = "w\<lparr>db := (db w)\<lparr>users := map ?g (users (db w))\<rparr>\<rparr>"
  have reset: "resetFailedAttempts E (user_id u) w = (Inr (), ?w1)"
    using assms(1) mem by (simp add: resetFailedAttempts_def user_update_quiet)
  have q1: "schedule ?w1 = []" using assms(1) by simp
  have mem1: "\<exists>x \<in> set (users (db ?w1)). user_id x = user_id u"
    using map_keeps_id [OF _ mem, of ?g] by simp
  have u1: "users (db ?w1) = map ?g (users (db w))" by simp
  have done1: "\<forall>y \<in> set (users (db ?w1)).
      user_id y = user_id u \<longrightarrow> user_failedLoginAttempts y = 0 \<and> user_lockedUntil y = None"
    unfolding u1 by (rule rows_after_map) simp
  show ?thesis
  proof (cases "needsRehash r")
    case False
    have "snd (login L E input dev ip w) = snd (issue L E u dev ip ?w1)"
      using assms False reset
      by (simp add: login_found await_def return_def)
    then have eq: "users (db (snd (login L E input dev ip w))) = users (db ?w1)"
      by (simp only: issue_users [OF q1])
    show ?thesis unfolding eq by (rule done1)
  next
    case True
    let ?h = "\<lambda>x. if user_id x = user_id u
      then (x\<lparr>user_password := hashPassword L (salt E) (li_password input)\<rparr>)
              \<lparr>user_updatedAt := now E\<rparr>
      else x"
    let ?w2 = "?w1\<lparr>db := (db ?w1)\<lparr>users := map ?h (users (db ?w1))\<rparr>\<rparr>"
    have rehash: "updateUserPassword E (user_id u)
        (hashPassword L (salt E) (li_password input)) ?w1 = (Inr (), ?w2)"
      using user_update_quiet [OF q1 mem1] by (simp add: updateUserPassword_def)
    have q2: "schedule ?w2 = []" using assms(1) by simp
    have u2: "users (db ?w2) = map ?h (users (db ?w1))" by simp
    have done2: "\<forall>y \<in> set (users (db ?w2)).
        user_id y = user_id u \<longrightarrow> user_failedLoginAttempts y = 0 \<and> user_lockedUntil y = None"
    proof (unfold u2, rule rows_after_map)
      fix x
      assume "x \<in> set (users (db ?w1))" and "user_id x = user_id u"
      with done1 have "user_failedLoginAttempts x = 0 \<and> user_lockedUntil x = None"
        by blast
      then show "user_failedLoginAttempts
            ((x\<lparr>user_password := hashPassword L (salt E) (li_password input)\<rparr>)
               \<lparr>user_updatedAt := now E\<rparr>) = 0
          \<and> user_lockedUntil
            ((x\<lparr>user_password := hashPassword L (salt E) (li_password input)\<rparr>)
               \<lparr>user_updatedAt := now E\<rparr>) = None"
        by simp
    qed
    have "snd (login L E input dev ip w) = snd (issue L E u dev ip ?w2)"
      using assms True reset rehash
      by (simp add: login_found await_def)
    then have eq: "users (db (snd (login L E input dev ip w))) = users (db ?w2)"
      by (simp only: issue_users [OF q2])
    show ?thesis unfolding eq by (rule done2)
  qed
qed

lemma rotate_users:
  "schedule w = [] \<Longrightarrow> users (db (snd (rotateRefreshToken E old nd w))) = users (db w)"
  by (simp add: rotate_seen seen_quiet)

lemma refresh_users:
  assumes "schedule w = []"
  shows "users (db (snd (refresh L E t w))) = users (db w)"
proof (cases "find (\<lambda>r. rt_token r = t) (refreshTokens (db w))")
  case None
  with assms show ?thesis
    by (simp add: refresh_absent seen_quiet find_token_None)
next
  case (Some st)
  show ?thesis
  proof (cases "now E > rt_expiresAt st")
    case True
    with assms Some show ?thesis by (simp add: refresh_expired)
  next
    case False
    have fu: "findUserById i w = (Inr (find (\<lambda>u. user_id u = i \<and> user_deletedAt u = None)
        (users (db w))), w)" for i
      using assms by (simp add: findUserById_def prisma_quiet user_findUnique_def)
    show ?thesis
      using assms Some False
      by (simp add: refresh_def await_def throw_def return_def Let_def findRefreshToken_quiet
          fu rotate_seen seen_quiet split: option.split)
  qed
qed

lemma logout_users:
  assumes "schedule w = []"
  shows "users (db (snd (logout E t w))) = users (db w)"
proof (cases "find (\<lambda>r. rt_token r = t) (refreshTokens (db w))")
  case None
  with assms show ?thesis
    by (simp add: logout_def logout_try_def await_def return_def findRefreshToken_quiet
        deleteRefreshToken_quiet)
next
  case (Some st)
  with assms show ?thesis by (simp add: logout_found)
qed

lemma register_users:
  assumes "schedule w = []"
  shows "take (length (users (db w))) (users (db (snd (register L E input dev ip w))))
    = users (db w)"
proof (cases "\<exists>u \<in> set (users (db w)). user_email u = ri_email input \<and> user_deletedAt u = None")
  case True
  with assms show ?thesis by (simp add: register_live seen_quiet)
next
  case False
  then have n: "find (\<lambda>u. user_email u = ri_email input \<and> user_deletedAt u = None)
      (users (db w)) = None"
    by (auto simp: find_live_None)
  show ?thesis
  proof (cases "\<exists>u \<in> set (users (db w)).
      user_id u = newUserId E \<or> user_email u = ri_email input")
    case True
    with assms n show ?thesis
      by (simp add: register_def await_def findUserByEmail_quiet createUser_def prisma_quiet
          user_create_def Let_def)
  next
    case False
    with assms n show ?thesis
      by (simp add: register_def await_def findUserByEmail_quiet createUser_def prisma_quiet
          user_create_def Let_def issue_users)
  qed
qed

text \<open>
  C10.  With no outage and no concurrent request: unless the password check of \<open>login\<close>
  is reached and succeeds, \<open>login\<close> lowers no counter and clears no lock; when it succeeds
  for a user with a positive counter or a lock, the counter of that user is 0 and the lock
  is \<open>null\<close> afterwards; \<open>refresh\<close> and \<open>logout\<close> leave the users table as it is and
  \<open>register\<close> leaves every existing row as it is.  For an active user whose lock has
  expired and whose counter is at least 5, a \<open>login\<close> with a password that does not match
  is rejected, adds one to the counter and sets a lock of the duration that the policy
  gives for the new count, which is at least the duration for any count up to the old one.
\<close>

theorem failed_attempts_reset_policy:
  assumes "schedule w = []"
  shows "(\<not> login_verified L E input w \<longrightarrow>
            list_all2 not_reset (users (db w)) (users (db (snd (login L E input dev ip w)))))
     \<and> (\<forall>u r. find (\<lambda>u. user_email u = li_email input \<and> user_deletedAt u = None)
                  (users (db w)) = Some u
               \<and> user_isActive u \<and> \<not> locked_at (now E) u
               \<and> verifyPassword L (li_password input) (user_password u) = Inr r \<and> valid r
               \<and> (user_failedLoginAttempts u > 0 \<or> user_lockedUntil u \<noteq> None) \<longrightarrow>
            (\<forall>y \<in> set (users (db (snd (login L E input dev ip w)))).
               user_id y = user_id u \<longrightarrow>
               user_failedLoginAttempts y = 0 \<and> user_lockedUntil y = None))
     \<and> users (db (snd (refresh L E t w))) = users (db w)
     \<and> users (db (snd (logout E t w))) = users (db w)
     \<and> take (length (users (db w))) (users (db (snd (register L E reg dev ip w))))
          = users (db w)
     \<and> (\<forall>u l r. find (\<lambda>u. user_email u = li_email input \<and> user_deletedAt u = None)
                    (users (db w)) = Some u
               \<and> user_isActive u \<and> user_lockedUntil u = Some l \<and> l \<le> now E
               \<and> user_failedLoginAttempts u \<ge> 5
               \<and> verifyPassword L (li_password input) (user_password u) = Inr r \<and> \<not> valid r \<longrightarrow>
            (\<exists>dur. getLockoutDuration (user_failedLoginAttempts u + 1) = Some dur \<and> 0 < dur
               \<and> (\<forall>k d0. k \<le> user_failedLoginAttempts u \<and> getLockoutDuration k = Some d0
                     \<longrightarrow> d0 \<le> dur)
               \<and> login L E input dev ip w =
                   (Inl invalid_credentials,
                    w\<lparr>db := (db w)\<lparr>users :=
                       map (\<lambda>x. if user_id x = user_id u
                                then x\<lparr>user_failedLoginAttempts := user_failedLoginAttempts x + 1,
                                       user_lockedUntil := Some (now E + dur),
                                       user_updatedAt := now E\<rparr>
                                else x) (users (db w))\<rparr>\<rparr>)))"
proof (intro conjI allI impI)
  assume "\<not> login_verified L E input w"
  with assms show "list_all2 not_reset (users (db w))
      (users (db (snd (login L E input dev ip w))))"
    by (rule login_no_reset)
next
  fix u r
  assume "find (\<lambda>u. user_email u = li_email input \<and> user_deletedAt u = None)
                  (users (db w)) = Some u
               \<and> user_isActive u \<and> \<not> locked_at (now E) u
               \<and> verifyPassword L (li_password input) (user_password u) = Inr r \<and> valid r
               \<and> (user_failedLoginAttempts u > 0 \<or> user_lockedUntil u \<noteq> None)"
  then show "\<forall>y \<in> set (users (db (snd (login L E input dev ip w)))).
               user_id y = user_id u \<longrightarrow>
               user_failedLoginAttempts y = 0 \<and> user_lockedUntil y = None"
    using login_resets [OF assms, of input u E L r dev ip] by blast
next
  show "users (db (snd (refresh L E t w))) = users (db w)"
    using assms by (rule refresh_users)
next
  show "users (db (snd (logout E t w))) = users (db w)"
    using assms by (rule logout_users)
next
  show "take (length (users (db w))) (users (db (snd (register L E reg dev ip w))))
          = users (db w)"
    using assms by (rule register_users)
next
  fix u l r
  assume "find (\<lambda>u. user_email u = li_email input \<and> user_deletedAt u = None)
                    (users (db w)) = Some u
               \<and> user_isActive u \<and> user_lockedUntil u = Some l \<and> l \<le> now E
               \<and> user_failedLoginAttempts u \<ge> 5
               \<and> verifyPassword L (li_password input) (user_password u) = Inr r \<and> \<not> valid r"
  then show "\<exists>dur. getLockoutDuration (user_failedLoginAttempts u + 1) = Some dur \<and> 0 < dur
               \<and> (\<forall>k d0. k \<le> user_failedLoginAttempts u \<and> getLockoutDuration k = Some d0
                     \<longrightarrow> d0 \<le> dur)
               \<and> login L E input dev ip w =
                   (Inl invalid_credentials,
                    w\<lparr>db := (db w)\<lparr>users :=
                       map (\<lambda>x. if user_id x = user_id u
                                then x\<lparr>user_failedLoginAttempts := user_failedLoginAttempts x + 1,
                                       user_lockedUntil := Some (now E + dur),
                                       user_updatedAt := now E\<rparr>
                                else x) (users (db w))\<rparr>\<rparr>)"
    using login_after_expired_lock [OF assms, of input u l E L r dev ip] by blast
qed

text \<open>
  On the concrete store: the user with nine failed attempts and an expired lock, after one
  more wrong password, has ten and is locked for 30 minutes from the time of the call; the
  lock for nine attempts was 15 minutes.
\<close>

theorem failed_attempts_reset_policy_witness:
  "fst (login toy_libs demo_env \<lparr>li_email = ''e@x.com'', li_password = ''wrong''\<rparr>
          None None demo_world) = Inl invalid_credentials
   \<and> map (\<lambda>u. (user_id u, user_failedLoginAttempts u, user_lockedUntil u))
        (users (db (snd (login toy_libs demo_env
           \<lparr>li_email = ''e@x.com'', li_password = ''wrong''\<rparr> None None demo_world))))
     = [(''u1'', 0, None), (''u2'', 0, None), (''u3'', 0, None), (''u4'', 5, Some 2500000),
        (''u5'', 10, Some 3800000)]
   \<and> getLockoutDuration 9 = Some 900000 \<and> getLockoutDuration 10 = Some 1800000"
proof -
  let ?input = "\<lparr>li_email = ''e@x.com'', li_password = ''wrong''\<rparr>"
  let ?u = "(demo_user ''u5'' ''e@x.com'')
          \<lparr>user_failedLoginAttempts := 9, user_lockedUntil := Some 1900000\<rparr>"
  have q: "schedule demo_world = []" by (simp add: demo_world_def)
  have h: "find (\<lambda>u. user_email u = li_email ?input \<and> user_deletedAt u = None)
                    (users (db demo_world)) = Some ?u
               \<and> user_isActive ?u \<and> user_lockedUntil ?u = Some 1900000
               \<and> 1900000 \<le> now demo_env
               \<and> user_failedLoginAttempts ?u \<ge> 5
               \<and> verifyPassword toy_libs (li_password ?input) (user_password ?u)
                   = Inr \<lparr>valid = False, needsRehash = False\<rparr>
               \<and> \<not> valid \<lparr>valid = False, needsRehash = False\<rparr>"
    using demo_find(4) demo_wrong_password [of "''u5''" "''e@x.com''"]
    by (simp add: demo_user_def demo_env_def)
  from failed_attempts_reset_policy [OF q, where L = toy_libs and E = demo_env
      and input = ?input and dev = None and ip = None] h
  obtain dur where d: "getLockoutDuration (user_failedLoginAttempts ?u + 1) = Some dur"
    and l: "login toy_libs demo_env ?input None None demo_world =
       (Inl invalid_credentials,
        demo_world\<lparr>db := (db demo_world)\<lparr>users :=
           map (\<lambda>x. if user_id x = user_id ?u
                    then x\<lparr>user_failedLoginAttempts := user_failedLoginAttempts x + 1,
                           user_lockedUntil := Some (now demo_env + dur),
                           user_updatedAt := now demo_env\<rparr>
                    else x) (users (db demo_world))\<rparr>\<rparr>)"
    by blast
  from d have "dur = 1800000" by (simp add: getLockoutDuration_closed)
  with l show ?thesis
    by (simp add: demo_defs getLockoutDuration_closed)
qed

section \<open>Register, then login\<close>

lemma sanitizeUser_no_password: "''password'' \<notin> fst ` set (sanitizeUser u)"
  by (simp add: sanitizeUser_def user_object_def)

lemma sanitizeUser_email: "(''email'', JString (user_email u)) \<in> set (sanitizeUser u)"
  by (simp add: sanitizeUser_def user_object_def)

lemma issue_quiet:
  assumes "schedule w = []"
    and "\<forall>x \<in> set (refreshTokens (db w)).
           rt_id x \<noteq> newTokenId E \<and> rt_token x \<noteq> newRefreshToken E"
    and "\<forall>s \<in> set (sessions (db w)). s_id s \<noteq> newSessionId E"
  shows "\<exists>w'. issue L E u dev ip w =
      (Inr \<lparr>ar_user = sanitizeUser u,
            ar_accessToken = signAccessToken L E (user_id u) (user_role u),
            ar_refreshToken = newRefreshToken E\<rparr>, w')
      \<and> schedule w' = [] \<and> users (db w') = users (db w)"
  using assms
  by (auto simp: issue_def await_def return_def createRefreshToken_def createSession_def
      prisma_quiet refreshToken_create_def session_create_def Let_def generateRefreshToken_def)

lemma issue_Inr:
  assumes "schedule w = []" and "issue L E u dev ip w = (Inr res, w')"
  shows "ar_user res = sanitizeUser u \<and> schedule w' = []
    \<and> users (db w') = users (db w)"
  using assms
  by (auto simp: issue_def await_def return_def createRefreshToken_def createSession_def
      prisma_quiet refreshToken_create_def session_create_def Let_def
      split: if_splits)

lemma register_Inr:
  assumes "schedule w = []" and "register L E input dev ip w = (Inr res, w1)"
  shows "ar_user res = sanitizeUser (new_user_row E (register_data L E input))
    \<and> schedule w1 = []
    \<and> users (db w1) = users (db w) @ [new_user_row E (register_data L E input)]
    \<and> (\<forall>u \<in> set (users (db w)). user_email u \<noteq> ri_email input)"
proof -
  have n: "find (\<lambda>u. user_email u = ri_email input \<and> user_deletedAt u = None)
      (users (db w)) = None"
    using assms
    by (cases "find (\<lambda>u. user_email u = ri_email input \<and> user_deletedAt u = None)
          (users (db w))")
       (simp_all add: register_def await_def findUserByEmail_quiet throw_def)
  have free: "\<not> (\<exists>u \<in> set (users (db w)).
      user_id u = newUserId E \<or> user_email u = ri_email input)"
  proof
    assume "\<exists>u \<in> set (users (db w)). user_id u = newUserId E \<or> user_email u = ri_email input"
    then have "fst (register L E input dev ip w) = Inl (PrismaError ''P2002'')"
      using assms(1) n
      by (simp add: register_def await_def findUserByEmail_quiet createUser_def prisma_quiet
          user_create_def Let_def)
    with assms(2) show False by simp
  qed
  let ?u = "new_user_row E (register_data L E input)"
  let ?w = "w\<lparr>db := (db w)\<lparr>users := users (db w) @ [?u]\<rparr>\<rparr>"
  have "register L E input dev ip w = issue L E ?u dev ip ?w"
    using assms(1) n free
    by (simp add: register_def await_def findUserByEmail_quiet createUser_def prisma_quiet
        user_create_def Let_def new_user_row_def register_data_def)
  with assms(2) have "issue L E ?u dev ip ?w = (Inr res, w1)" by simp
  from issue_Inr [OF _ this] assms(1) free show ?thesis by auto
qed

lemma find_appended:
  assumes "\<forall>x \<in> set xs. \<not> P x" and "P y"
  shows "find P (xs @ [y]) = Some y"
  using assms by (induction xs) simp_all

lemma login_fresh_user:
  assumes q: "schedule w = []"
    and f: "find (\<lambda>u. user_email u = li_email input \<and> user_deletedAt u = None) (users (db w))
         = Some u"
    and a: "user_isActive u" and l: "user_lockedUntil u = None"
    and z: "user_failedLoginAttempts u = 0"
    and v: "verifyPassword L (li_password input) (user_password u) = Inr r" "valid r"
    and t: "\<forall>x \<in> set (refreshTokens (db w)).
           rt_id x \<noteq> newTokenId E \<and> rt_token x \<noteq> newRefreshToken E"
    and s: "\<forall>s \<in> set (sessions (db w)). s_id s \<noteq> newSessionId E"
  shows "\<exists>w'. login L E input dev ip w =
      (Inr \<lparr>ar_user = sanitizeUser u,
            ar_accessToken = signAccessToken L E (user_id u) (user_role u),
            ar_refreshToken = newRefreshToken E\<rparr>, w')"
proof -
  from f have mem: "\<exists>x \<in> set (users (db w)). user_id x = user_id u"
    by (auto dest: find_SomeD)
  from l have nl: "\<not> locked_at (now E) u" by (simp add: locked_at_def)
  show ?thesis
  proof (cases "needsRehash r")
    case False
    then have "login L E input dev ip w = issue L E u dev ip w"
      using q f a nl z l v by (simp add: login_found await_def return_def)
    with issue_quiet [OF q t s, of L u dev ip] show ?thesis by auto
  next
    case True
    let ?w1 = "w\<lparr>db := (db w)\<lparr>users :=
        map (\<lambda>x. if user_id x = user_id u
                 then (x\<lparr>user_password := hashPassword L (salt E) (li_password input)\<rparr>)
                        \<lparr>user_updatedAt := now E\<rparr>
                 else x) (users (db w))\<rparr>\<rparr>"
    have rehash: "updateUserPassword E (user_id u)
        (hashPassword L (salt E) (li_password input)) w = (Inr (), ?w1)"
      using user_update_quiet [OF q mem] by (simp add: updateUserPassword_def)
    have q1: "schedule ?w1 = []" using q by simp
    have t1: "\<forall>x \<in> set (refreshTokens (db ?w1)).
           rt_id x \<noteq> newTokenId E \<and> rt_token x \<noteq> newRefreshToken E"
      using t by simp
    have s1: "\<forall>s \<in> set (sessions (db ?w1)). s_id s \<noteq> newSessionId E"
      using s by simp
    have "login L E input dev ip w = issue L E u dev ip ?w1"
      using q f a nl z l v True rehash by (simp add: login_found await_def return_def)
    with issue_quiet [OF q1 t1 s1, of L u dev ip] show ?thesis by auto
  qed
qed

text \<open>
  C8.  With no outage and no concurrent request: if \<open>register\<close> returns, the hashing
  library accepts the password against the hash it has just made of it, and the token and
  the row ids that the later call draws are not in the store yet, then \<open>login\<close> with the same
  email and password in the world that \<open>register\<close> leaves returns too, with the same
  sanitized user; the sanitized user of both results has no property \<open>password\<close>, and has
  the email registered.
\<close>

theorem register_then_login:
  assumes "schedule w = []"
    and "register L E reg dev ip w = (Inr res, w1)"
    and "verifyPassword L (ri_password reg) (hashPassword L (salt E) (ri_password reg)) = Inr r"
    and "valid r"
    and "\<forall>x \<in> set (refreshTokens (db w1)).
           rt_id x \<noteq> newTokenId E' \<and> rt_token x \<noteq> newRefreshToken E'"
    and "\<forall>s \<in> set (sessions (db w1)). s_id s \<noteq> newSessionId E'"
  shows "\<exists>res' w2.
      login L E' \<lparr>li_email = ri_email reg, li_password = ri_password reg\<rparr> dev' ip' w1
        = (Inr res', w2)
      \<and> ar_user res' = ar_user res
      \<and> ''password'' \<notin> fst ` set (ar_user res)
      \<and> ''password'' \<notin> fst ` set (ar_user res')
      \<and> (''email'', JString (ri_email reg)) \<in> set (ar_user res)"
proof -
  let ?u = "new_user_row E (register_data L E reg)"
  let ?input = "\<lparr>li_email = ri_email reg, li_password = ri_password reg\<rparr>"
  from register_Inr [OF assms(1,2)]
  have res: "ar_user res = sanitizeUser ?u" and q1: "schedule w1 = []"
    and us: "users (db w1) = users (db w) @ [?u]"
    and free: "\<forall>u \<in> set (users (db w)). user_email u \<noteq> ri_email reg"
    by simp_all
  have "find (\<lambda>u. user_email u = ri_email reg \<and> user_deletedAt u = None) (users (db w) @ [?u])
      = Some ?u"
    using free by (intro find_appended) (simp_all add: new_user_row_def register_data_def)
  then have f: "find (\<lambda>u. user_email u = li_email ?input \<and> user_deletedAt u = None)
      (users (db w1)) = Some ?u"
    by (simp add: us)
  have v: "verifyPassword L (li_password ?input) (user_password ?u) = Inr r"
    using assms(3) by (simp add: new_user_row_def register_data_def)
  from login_fresh_user [OF q1 f _ _ _ v assms(4) assms(5) assms(6), of dev' ip']
  obtain w2 where "login L E' ?input dev' ip' w1 =
      (Inr \<lparr>ar_user = sanitizeUser ?u,
            ar_accessToken = signAccessToken L E' (user_id ?u) (user_role ?u),
            ar_refreshToken = newRefreshToken E'\<rparr>, w2)"
    by (auto simp: new_user_row_def)
  moreover have "(''email'', JString (ri_email reg)) \<in> set (sanitizeUser ?u)"
    using sanitizeUser_email [of ?u] by (simp add: new_user_row_def register_data_def)
  ultimately show ?thesis
    using res sanitizeUser_no_password [of ?u] by auto
qed

lemma demo_register:
  "register toy_libs demo_env demo_register_input None None demo_world =
    (Inr \<lparr>ar_user =
            [(''id'', JString ''u-new''), (''email'', JString ''n@x.com''),
             (''firstName'', JString ''A''), (''lastName'', JString ''B''),
             (''role'', JString ''USER''), (''isActive'', JBool True),
             (''deletedAt'', JNull), (''failedLoginAttempts'', JNumber 0),
             (''lockedUntil'', JNull), (''avatarUrl'', JNull),
             (''createdAt'', JIsoString 2000000), (''updatedAt'', JIsoString 2000000)],
          ar_accessToken = ''jwt.u-new.USER'', ar_refreshToken = ''tok-new''\<rparr>,
     demo_world\<lparr>db := demo_db\<lparr>
       users := users demo_db @
         [\<lparr>user_id = ''u-new'', user_email = ''n@x.com'',
           user_password = ''$argon2id$s$Passw0rd'',
           user_firstName = ''A'', user_lastName = ''B'', user_avatarUrl = None,
           user_role = ''USER'', user_isActive = True, user_deletedAt = None,
           user_failedLoginAttempts = 0, user_lockedUntil = None,
           user_createdAt = 2000000, user_updatedAt = 2000000\<rparr>],
       refreshTokens := refreshTokens demo_db @
         [\<lparr>rt_id = ''rt-new'', rt_token = ''tok-new'', rt_userId = ''u-new'',
           rt_expiresAt = 606800000, rt_createdAt = 2000000\<rparr>],
       sessions := sessions demo_db @
         [\<lparr>s_id = ''s-new'', s_userId = ''u-new'', s_deviceInfo = None, s_ipAddress = None,
           s_lastActiveAt = 2000000, s_expiresAt = 606800000, s_createdAt = 2000000\<rparr>]\<rparr>\<rparr>)"
  by (simp add: demo_defs demo_register_input_def register_def await_def return_def
      findUserByEmail_def createUser_def prisma_def seen_def user_findUnique_def user_create_def
      issue_def createRefreshToken_def createSession_def refreshToken_create_def
      session_create_def Let_def hashPassword_def toy_libs_def signAccessToken_def
      generateRefreshToken_def getRefreshTokenExpiresAt_def sanitizeUser_def user_object_def
      nullable_def)

text \<open>
  On the concrete store: a registration of a new email, then the login; the sanitized user
  is written out.
\<close>

theorem register_then_login_witness:
  "\<exists>res' w2.
     login toy_libs demo_env2 \<lparr>li_email = ''n@x.com'', li_password = ''Passw0rd''\<rparr> None None
       (snd (register toy_libs demo_env demo_register_input None None demo_world))
       = (Inr res', w2)
     \<and> ar_user res' =
         [(''id'', JString ''u-new''), (''email'', JString ''n@x.com''),
          (''firstName'', JString ''A''), (''lastName'', JString ''B''),
          (''role'', JString ''USER''), (''isActive'', JBool True),
          (''deletedAt'', JNull), (''failedLoginAttempts'', JNumber 0),
          (''lockedUntil'', JNull), (''avatarUrl'', JNull),
          (''createdAt'', JIsoString 2000000), (''updatedAt'', JIsoString 2000000)]
     \<and> ''password'' \<notin> fst ` set (ar_user res')"
proof -
  have q: "schedule demo_world = []" by (simp add: demo_world_def)
  have v: "verifyPassword toy_libs (ri_password demo_register_input)
      (hashPassword toy_libs (salt demo_env) (ri_password demo_register_input))
      = Inr \<lparr>valid = True, needsRehash = False\<rparr>"
    by (simp add: verifyPassword_argon2 toy_hash_not_bcrypt toy_hash_verifies)
  have t: "\<forall>x \<in> set (refreshTokens (db (snd
      (register toy_libs demo_env demo_register_input None None demo_world)))).
        rt_id x \<noteq> newTokenId demo_env2 \<and> rt_token x \<noteq> newRefreshToken demo_env2"
    by (simp add: demo_register) (simp add: demo_db_def demo_env2_def)
  have s: "\<forall>s \<in> set (sessions (db (snd
      (register toy_libs demo_env demo_register_input None None demo_world)))).
        s_id s \<noteq> newSessionId demo_env2"
    by (simp add: demo_register) (simp add: demo_db_def demo_env2_def)
  have r: "register toy_libs demo_env demo_register_input None None demo_world =
    (Inr (projr (fst (register toy_libs demo_env demo_register_input None None demo_world))),
     snd (register toy_libs demo_env demo_register_input None None demo_world))"
    by (simp add: demo_register)
  from register_then_login [OF q r v _ t s, of None None]
  obtain res' w2 where
    "login toy_libs demo_env2
        \<lparr>li_email = ri_email demo_register_input,
         li_password = ri_password demo_register_input\<rparr> None None
        (snd (register toy_libs demo_env demo_register_input None None demo_world))
      = (Inr res', w2)"
    and "ar_user res' = ar_user (projr (fst
        (register toy_libs demo_env demo_register_input None None demo_world)))"
    and "''password'' \<notin> fst ` set (ar_user res')"
    by auto
  then show ?thesis
    by (intro exI [of _ res'] exI [of _ w2])
       (simp add: demo_register, simp add: demo_register_input_def)
qed

end
